theory Spec2Isabelle
  imports Main
begin

section \<open>Strings and numbers of the JavaScript runtime\<close>

text \<open>
  Source strings are modelled as \<open>string\<close> (lists of 8-bit characters, the Latin-1 range).
  JavaScript numbers are modelled as unbounded \<open>int\<close>; \<open>NaN\<close> is \<open>None\<close> of an
  \<open>int option\<close>. Doubles are exact on integers of magnitude up to \<open>2^53\<close>, and every
  valid \<open>Date\<close> time value is below that, so the model agrees with the runtime wherever a
  statement below keeps its numbers in that range.
\<close>

definition isSpace :: "char \<Rightarrow> bool" where
  \<comment> \<open>the class \<open>\s\<close> of a regular expression, which is also what \<open>trim\<close> and \<open>parseInt\<close> skip\<close>
  "isSpace c = (c \<in> set [CHR 0x09, CHR 0x0A, CHR 0x0B, CHR 0x0C, CHR 0x0D, CHR 0x20, CHR 0xA0])"

definition isDigit :: "char \<Rightarrow> bool" where
  \<comment> \<open>the class \<open>\d\<close>\<close>
  "isDigit c = (c \<in> set ''0123456789'')"

definition digitVal :: "char \<Rightarrow> int" where
  "digitVal c = int (of_char c) - 48"

definition toLowerChar :: "char \<Rightarrow> char" where
  "toLowerChar c =
     (case map_of (zip ''ABCDEFGHIJKLMNOPQRSTUVWXYZ'' ''abcdefghijklmnopqrstuvwxyz'') c of
        Some l \<Rightarrow> l | None \<Rightarrow> c)"

definition toLowerCase :: "string \<Rightarrow> string" where
  "toLowerCase s = map toLowerChar s"

definition trim :: "string \<Rightarrow> string" where
  "trim s = rev (dropWhile isSpace (rev (dropWhile isSpace s)))"

definition startsWith :: "string \<Rightarrow> string \<Rightarrow> bool" where
  "startsWith s p = (take (length p) s = p)"

definition digitsVal :: "string \<Rightarrow> int" where
  "digitsVal ds = foldl (\<lambda>a c. 10 * a + digitVal c) 0 ds"

definition parseInt :: "string \<Rightarrow> int option" where
  \<comment> \<open>\<open>parseInt(s, 10)\<close>: skip white space, read a sign, read the longest run of digits;
      \<open>NaN\<close> when there is no digit\<close>
  "parseInt s =
     (let r = dropWhile isSpace s;
          neg = (r \<noteq> [] \<and> hd r = CHR ''-'');
          r' = (if r \<noteq> [] \<and> (hd r = CHR ''-'' \<or> hd r = CHR ''+'') then tl r else r);
          ds = takeWhile isDigit r'
      in if ds = [] then None else Some (if neg then - digitsVal ds else digitsVal ds))"

fun splitWs :: "string \<Rightarrow> string list" where
  \<comment> \<open>\<open>s.split(/\s+/)\<close>: the pieces between maximal runs of white space; a run at either
      end leaves an empty piece there, and the empty string gives one empty piece\<close>
  "splitWs [] = [[]]"
| "splitWs (c # cs) =
     (if isSpace c then (if cs \<noteq> [] \<and> isSpace (hd cs) then splitWs cs else [] # splitWs cs)
      else (case splitWs cs of [] \<Rightarrow> [[c]] | w # ws \<Rightarrow> (c # w) # ws))"


definition stripPrefixCI :: "string \<Rightarrow> string \<Rightarrow> string option" where
  \<comment> \<open>the lower-case word \<open>w\<close> at the start of \<open>s\<close> under the flag \<open>/i\<close>: the rest of \<open>s\<close>\<close>
  "stripPrefixCI w s =
     (if toLowerCase (take (length w) s) = w then Some (drop (length w) s) else None)"

fun firstPrefixCI :: "string list \<Rightarrow> string \<Rightarrow> (string \<times> string) option" where
  \<comment> \<open>an alternation \<open>(w1|w2|...)\<close> at the start of \<open>s\<close>: the first word that matches, and the rest\<close>
  "firstPrefixCI [] s = None"
| "firstPrefixCI (w # ws) s =
     (case stripPrefixCI w s of Some r \<Rightarrow> Some (w, r) | None \<Rightarrow> firstPrefixCI ws s)"

fun indexOf :: "string list \<Rightarrow> string \<Rightarrow> int" where
  "indexOf [] x = -1"
| "indexOf (y # ys) x = (if y = x then 0 else (let i = indexOf ys x in if i < 0 then -1 else i + 1))"

section \<open>Dates\<close>

text \<open>
  A \<open>Date\<close> is its time value in milliseconds since the epoch (UTC), \<open>None\<close> for an
  invalid date (time value \<open>NaN\<close>). The methods \<open>getDay\<close>, \<open>setSeconds\<close>, \<open>setMinutes\<close>,
  \<open>setHours\<close>, \<open>getDate\<close> and \<open>setDate\<close> that the code calls work in the local time of
  the process: they are the ones of ECMAScript's Date objects, over the time zone the process
  runs in. A zone is the pair of offsets the language calls \<open>LocalTZA\<close>: the offset in
  force at an instant, and the offset taken for a local time (which the zone chooses where a
  local time is skipped or repeated at a change of offset).
  An ISO string produced by \<open>toISOString\<close> is represented by the instant it denotes.
\<close>

datatype error = RangeError

type_synonym date = "int option"

record zone =
  offsetAtUTC :: "int \<Rightarrow> int"    \<comment> \<open>\<open>LocalTZA(t, true)\<close>: the offset in ms at the instant \<open>t\<close>\<close>
  offsetAtLocal :: "int \<Rightarrow> int"  \<comment> \<open>\<open>LocalTZA(t, false)\<close>: the offset in ms for the local time \<open>t\<close>\<close>

definition msPerDay :: int where
  "msPerDay = 86400000"

definition timeClip :: "int \<Rightarrow> date" where
  "timeClip v = (if \<bar>v\<bar> \<le> 8640000000000000 then Some v else None)"

definition LocalTime :: "zone \<Rightarrow> int \<Rightarrow> int" where
  "LocalTime tz t = t + offsetAtUTC tz t"

definition UTC :: "zone \<Rightarrow> int \<Rightarrow> int" where
  "UTC tz t = t - offsetAtLocal tz t"

definition Day :: "int \<Rightarrow> int" where
  "Day t = t div msPerDay"

definition TimeWithinDay :: "int \<Rightarrow> int" where
  "TimeWithinDay t = t mod msPerDay"

definition HourFromTime :: "int \<Rightarrow> int" where
  "HourFromTime t = (t div 3600000) mod 24"

definition MinFromTime :: "int \<Rightarrow> int" where
  "MinFromTime t = (t div 60000) mod 60"

definition SecFromTime :: "int \<Rightarrow> int" where
  "SecFromTime t = (t div 1000) mod 60"

definition msFromTime :: "int \<Rightarrow> int" where
  "msFromTime t = t mod 1000"

definition MakeTime :: "int \<Rightarrow> int \<Rightarrow> int \<Rightarrow> int \<Rightarrow> int" where
  "MakeTime h m s ms = h * 3600000 + m * 60000 + s * 1000 + ms"

definition MakeDate :: "int \<Rightarrow> int \<Rightarrow> int" where
  "MakeDate day time = day * msPerDay + time"

definition WeekDay :: "int \<Rightarrow> int" where
  \<comment> \<open>the day of the week of a time value, 0 for Sunday; 1 January 1970 was a Thursday\<close>
  "WeekDay t = (Day t + 4) mod 7"

definition getDay :: "zone \<Rightarrow> int \<Rightarrow> int" where
  \<comment> \<open>\<open>d.getDay()\<close>: the day of the week in local time\<close>
  "getDay tz t = WeekDay (LocalTime tz t)"

definition setSeconds :: "zone \<Rightarrow> int \<Rightarrow> int \<Rightarrow> date \<Rightarrow> date" where
  \<comment> \<open>\<open>d.setSeconds(sec, ms)\<close>\<close>
  "setSeconds tz sec ms d =
     (case d of None \<Rightarrow> None
      | Some t0 \<Rightarrow>
          (let t = LocalTime tz t0
           in timeClip (UTC tz (MakeDate (Day t) (MakeTime (HourFromTime t) (MinFromTime t) sec ms)))))"

definition setMinutes :: "zone \<Rightarrow> int option \<Rightarrow> date \<Rightarrow> date" where
  \<comment> \<open>\<open>d.setMinutes(min)\<close>; a minute outside 0..59 carries into the hour\<close>
  "setMinutes tz mn d =
     (case d of None \<Rightarrow> None
      | Some t0 \<Rightarrow>
          (case mn of None \<Rightarrow> None
           | Some m \<Rightarrow>
               (let t = LocalTime tz t0
                in timeClip (UTC tz (MakeDate (Day t)
                                      (MakeTime (HourFromTime t) m (SecFromTime t) (msFromTime t)))))))"

definition setHours :: "zone \<Rightarrow> int option \<Rightarrow> date \<Rightarrow> date" where
  \<comment> \<open>\<open>d.setHours(hour)\<close>\<close>
  "setHours tz hr d =
     (case d of None \<Rightarrow> None
      | Some t0 \<Rightarrow>
          (case hr of None \<Rightarrow> None
           | Some h \<Rightarrow>
               (let t = LocalTime tz t0
                in timeClip (UTC tz (MakeDate (Day t)
                                      (MakeTime h (MinFromTime t) (SecFromTime t) (msFromTime t)))))))"

definition setHours4 :: "zone \<Rightarrow> int option \<Rightarrow> int option \<Rightarrow> int \<Rightarrow> int \<Rightarrow> date \<Rightarrow> date" where
  \<comment> \<open>\<open>d.setHours(hour, min, sec, ms)\<close>\<close>
  "setHours4 tz hr mn sec ms d =
     (case d of None \<Rightarrow> None
      | Some t0 \<Rightarrow>
          (case hr of None \<Rightarrow> None
           | Some h \<Rightarrow>
               (case mn of None \<Rightarrow> None
                | Some m \<Rightarrow>
                    timeClip (UTC tz (MakeDate (Day (LocalTime tz t0)) (MakeTime h m sec ms))))))"

definition addDays :: "zone \<Rightarrow> int \<Rightarrow> date \<Rightarrow> date" where
  \<comment> \<open>\<open>d.setDate(d.getDate() + k)\<close>: the same local time of day, \<open>k\<close> local days on (the day
      of the month carries into the month and the year, so the day number is the one of
      \<open>d\<close> plus \<open>k\<close>)\<close>
  "addDays tz k d =
     (case d of None \<Rightarrow> None
      | Some t0 \<Rightarrow>
          (let t = LocalTime tz t0
           in timeClip (UTC tz (MakeDate (Day t + k) (TimeWithinDay t)))))"

definition dateLe :: "date \<Rightarrow> date \<Rightarrow> bool" where
  \<comment> \<open>\<open>a <= b\<close> on dates; false when either is invalid\<close>
  "dateLe a b = (case a of None \<Rightarrow> False | Some x \<Rightarrow> (case b of None \<Rightarrow> False | Some y \<Rightarrow> x \<le> y))"

definition toISOString :: "date \<Rightarrow> error + int" where
  \<comment> \<open>throws \<open>RangeError\<close> on an invalid date\<close>
  "toISOString d = (case d of None \<Rightarrow> Inl RangeError | Some t \<Rightarrow> Inr t)"


section \<open>Schedule classification (scheduler-cli.ts)\<close>

datatype schedule_type = cron | at | every

record parsed =
  ptype :: schedule_type
  pschedule :: "string option"
  prunAt :: "int option"
  pintervalMs :: "int option"

definition everyUnits :: "string list" where
  "everyUnits = [''m'', ''min'', ''mins'', ''minute'', ''minutes'', ''h'', ''hr'', ''hrs'',
                 ''hour'', ''hours'', ''d'', ''day'', ''days'']"

definition everyMatch :: "string \<Rightarrow> (string \<times> string) option" where
  \<comment> \<open>\<open>/^(?:every\s+)?(\d+)\s*(m|min|mins|minutes?|h|hr|hrs|hours?|d|days?)$/i\<close>:
      the captures \<open>amount\<close> and \<open>unit\<close>, the unit as it is written\<close>
  "everyMatch s =
     (let r0 = (case stripPrefixCI ''every'' s of
                  None \<Rightarrow> s
                | Some r \<Rightarrow> if r \<noteq> [] \<and> isSpace (hd r) then dropWhile isSpace r else s);
          amount = takeWhile isDigit r0;
          unit = dropWhile isSpace (dropWhile isDigit r0)
      in if amount \<noteq> [] \<and> toLowerCase unit \<in> set everyUnits then Some (amount, unit) else None)"

definition dayWords :: "string list" where
  "dayWords = [''today'', ''tomorrow'', ''monday'', ''tuesday'', ''wednesday'', ''thursday'',
               ''friday'', ''saturday'', ''sunday'']"

definition relativeMatch :: "string \<Rightarrow> (string \<times> string \<times> string option \<times> string option) option" where
  \<comment> \<open>\<open>/^(today|tomorrow|monday|...|sunday)\s+(\d{1,2})(?::(\d{2}))?\s*(am|pm)?$/i\<close>:
      the captures \<open>dayStr\<close> (in lower case, the only way the code reads it), \<open>hourStr\<close>,
      \<open>minStr\<close> and \<open>ampm\<close>\<close>
  "relativeMatch input =
     (case firstPrefixCI dayWords input of
        None \<Rightarrow> None
      | Some (dayStr, r0) \<Rightarrow>
          (let r1 = dropWhile isSpace r0;
               hourStr = take 2 (takeWhile isDigit r1);
               r2 = drop (length hourStr) r1;
               hasMin = (r2 \<noteq> [] \<and> hd r2 = CHR '':'' \<and> length (takeWhile isDigit (take 2 (tl r2))) = 2);
               minStr = (if hasMin then Some (take 2 (tl r2)) else None);
               r3 = (if hasMin then drop 3 r2 else r2);
               r4 = dropWhile isSpace r3;
               ampm = (if toLowerCase r4 = ''am'' \<or> toLowerCase r4 = ''pm'' then Some r4 else None)
           in if r0 \<noteq> [] \<and> isSpace (hd r0) \<and> hourStr \<noteq> [] \<and> (r4 = [] \<or> ampm \<noteq> None)
              then Some (dayStr, hourStr, minStr, ampm) else None))"

definition inMatch :: "string \<Rightarrow> (string \<times> string) option" where
  \<comment> \<open>\<open>/^in\s+(\d+)\s*(hour|hr|minute|min|day|d)s?$/i\<close>: the captures \<open>amount\<close> and \<open>unit\<close>
      (in lower case, the only way the code reads it)\<close>
  "inMatch input =
     (case stripPrefixCI ''in'' input of
        None \<Rightarrow> None
      | Some r0 \<Rightarrow>
          (let r1 = dropWhile isSpace r0;
               amount = takeWhile isDigit r1;
               r2 = toLowerCase (dropWhile isSpace (dropWhile isDigit r1));
               unit = find (\<lambda>u. r2 = u \<or> r2 = u @ ''s'') [''hour'', ''hr'', ''minute'', ''min'', ''day'', ''d'']
           in if r0 \<noteq> [] \<and> isSpace (hd r0) \<and> amount \<noteq> []
              then (case unit of None \<Rightarrow> None | Some u \<Rightarrow> Some (amount, u)) else None))"

definition days :: "string list" where
  "days = [''sunday'', ''monday'', ''tuesday'', ''wednesday'', ''thursday'', ''friday'', ''saturday'']"

definition targetDay :: "zone \<Rightarrow> int \<Rightarrow> string \<Rightarrow> date" where
  \<comment> \<open>\<open>targetDate\<close> after the branches on \<open>dayStr\<close>: tomorrow, today, or the next day
      of the named weekday\<close>
  "targetDay tz now dayStr =
     (let targetDate = Some now
      in if dayStr = ''tomorrow'' then addDays tz 1 targetDate
         else if dayStr \<noteq> ''today'' then
           (let targetDay = indexOf days dayStr;
                currentDay = getDay tz now;
                daysToAdd = targetDay - currentDay;
                daysToAdd = (if daysToAdd \<le> 0 then daysToAdd + 7 else daysToAdd)
            in addDays tz daysToAdd targetDate)
         else targetDate)"

definition clockHour :: "string \<Rightarrow> string option \<Rightarrow> int option" where
  \<comment> \<open>\<open>hour\<close> after the two corrections for \<open>am\<close> and \<open>pm\<close>\<close>
  "clockHour hourStr ampm =
     (let hour = parseInt hourStr;
          pm = (case ampm of None \<Rightarrow> False | Some a \<Rightarrow> toLowerCase a = ''pm'');
          am = (case ampm of None \<Rightarrow> False | Some a \<Rightarrow> toLowerCase a = ''am'');
          hour = (case hour of None \<Rightarrow> None | Some h \<Rightarrow> Some (if pm \<and> h < 12 then h + 12 else h));
          hour = (case hour of None \<Rightarrow> None | Some h \<Rightarrow> Some (if am \<and> h = 12 then 0 else h))
      in hour)"

definition clockMin :: "string option \<Rightarrow> int option" where
  \<comment> \<open>\<open>minStr ? parseInt(minStr, 10) : 0\<close>\<close>
  "clockMin minStr = (case minStr of None \<Rightarrow> Some 0 | Some ms \<Rightarrow> if ms = [] then Some 0 else parseInt ms)"

definition relativeDate :: "zone \<Rightarrow> int \<Rightarrow> string \<times> string \<times> string option \<times> string option \<Rightarrow> date" where
  \<comment> \<open>the branch \<open>if (relativeMatch) { ... }\<close> of \<open>parseDateTime\<close>, up to \<open>setHours\<close>;
      the same text in scheduler-cli.ts and in the calendar tools\<close>
  "relativeDate tz now m =
     (case m of (dayStr, hourStr, minStr, ampm) \<Rightarrow>
        setHours4 tz (clockHour hourStr ampm) (clockMin minStr) 0 0 (targetDay tz now dayStr))"

definition okSome :: "error + 'a \<Rightarrow> error + 'a option" where
  "okSome r = (case r of Inl e \<Rightarrow> Inl e | Inr x \<Rightarrow> Inr (Some x))"

definition parseDateTime :: "zone \<Rightarrow> (string \<Rightarrow> int option) \<Rightarrow> int \<Rightarrow> string \<Rightarrow> error + int option" where
  \<comment> \<open>\<open>now\<close> is the clock read by \<open>new Date()\<close>; \<open>dateParse\<close> is the runtime's
      \<open>Date.parse\<close>, whose result on other than ISO strings the language leaves to the
      implementation. The result is \<open>Inl\<close> where \<open>toISOString\<close> throws.\<close>
  "parseDateTime tz dateParse now input =
     (case relativeMatch input of
        Some m \<Rightarrow> okSome (toISOString (relativeDate tz now m))
      | None \<Rightarrow>
          (case inMatch input of
             Some (amount, unit) \<Rightarrow>
               (case parseInt amount of
                  None \<Rightarrow> Inl RangeError
                | Some num \<Rightarrow>
                    (let ms = (if startsWith unit ''hour'' \<or> unit = ''hr'' then num * 3600000
                               else if startsWith unit ''min'' then num * 60000
                               else num * 86400000)
                     in okSome (toISOString (timeClip (now + ms)))))
           | None \<Rightarrow>
               (case Option.bind (dateParse input) timeClip of
                  None \<Rightarrow> Inr None
                | Some p \<Rightarrow> if p > now then Inr (Some p) else Inr None)))"



definition cronRanges :: "(int \<times> int) list" where
  "cronRanges = [(0, 59), (0, 23), (1, 31), (1, 12), (0, 7)]"

definition partOk :: "int \<times> int \<Rightarrow> string \<Rightarrow> bool" where
  \<comment> \<open>one turn of the loop of \<open>validateCron\<close>: true for \<open>continue\<close> and for a number in range\<close>
  "partOk rng part =
     (if part = ''*'' then True
      else if CHR ''/'' \<in> set part then True
      else if CHR ''-'' \<in> set part then True
      else if CHR '','' \<in> set part then True
      else (case parseInt part of
              None \<Rightarrow> False
            | Some num \<Rightarrow> \<not> (num < fst rng \<or> num > snd rng)))"

fun validateLoop :: "(int \<times> int) list \<Rightarrow> string list \<Rightarrow> bool" where
  \<comment> \<open>\<open>for (let i = 0; i < 5; i++)\<close>, returning false at the first part that fails\<close>
  "validateLoop (r # rs) (part # ps) = (if partOk r part then validateLoop rs ps else False)"
| "validateLoop rs ps = True"

definition validateCron :: "string \<Rightarrow> bool" where
  "validateCron sched =
     (let parts = splitWs sched
      in if length parts \<noteq> 5 then False else validateLoop cronRanges parts)"

definition relPrefix :: "string \<Rightarrow> bool" where
  \<comment> \<open>\<open>/^(today|tomorrow|in\s+\d|monday|tuesday|wednesday|thursday|friday|saturday|sunday)/i\<close>\<close>
  "relPrefix s =
     (firstPrefixCI dayWords s \<noteq> None \<or>
      (case stripPrefixCI ''in'' s of
         None \<Rightarrow> False
       | Some r \<Rightarrow> r \<noteq> [] \<and> isSpace (hd r) \<and>
                  (case dropWhile isSpace r of [] \<Rightarrow> False | c # cs \<Rightarrow> isDigit c)))"

definition parseSchedule :: "zone \<Rightarrow> (string \<Rightarrow> int option) \<Rightarrow> int \<Rightarrow> string \<Rightarrow> error + parsed option" where
  "parseSchedule tz dateParse now input =
     (let trimmed = trim input
      in case everyMatch trimmed of
           Some (amount, unit) \<Rightarrow>
             (let num = parseInt amount;
                  ms = (case num of
                          None \<Rightarrow> None
                        | Some n \<Rightarrow> Some (if startsWith unit ''m'' then n * 60 * 1000
                                          else if startsWith unit ''h'' then n * 60 * 60 * 1000
                                          else n * 24 * 60 * 60 * 1000))
              in Inr (Some \<lparr>ptype = every, pschedule = None, prunAt = None, pintervalMs = ms\<rparr>))
         | None \<Rightarrow>
             (case parseDateTime tz dateParse now trimmed of
                Inl e \<Rightarrow> Inl e
              | Inr atTime \<Rightarrow>
                  if atTime \<noteq> None \<and> relPrefix trimmed
                  then Inr (Some \<lparr>ptype = at, pschedule = None, prunAt = atTime, pintervalMs = None\<rparr>)
                  else if length (splitWs trimmed) = 5 \<and> validateCron trimmed
                  then Inr (Some \<lparr>ptype = cron, pschedule = Some trimmed, prunAt = None, pintervalMs = None\<rparr>)
                  else if atTime \<noteq> None
                  then Inr (Some \<lparr>ptype = at, pschedule = None, prunAt = atTime, pintervalMs = None\<rparr>)
                  else Inr None))"

definition calculateNextRun ::
  "zone \<Rightarrow> int \<Rightarrow> schedule_type \<Rightarrow> string option \<Rightarrow> int option \<Rightarrow> int option \<Rightarrow> error + int option" where
  \<comment> \<open>\<open>now\<close> is the clock read by \<open>new Date()\<close>. A string is truthy when it is not empty, a
      number when it is neither 0 nor \<open>NaN\<close>.\<close>
  "calculateNextRun tz now ty sched runAt intervalMs =
     (if ty = at \<and> runAt \<noteq> None
      then (case runAt of None \<Rightarrow> Inr None
            | Some runDate \<Rightarrow> Inr (if runDate > now then runAt else None))
      else if ty = every \<and> intervalMs \<noteq> None \<and> intervalMs \<noteq> Some 0
      then (case intervalMs of None \<Rightarrow> Inr None
            | Some i \<Rightarrow> okSome (toISOString (timeClip (now + i))))
      else if ty = cron \<and> sched \<noteq> None \<and> sched \<noteq> Some []
      then (case sched of None \<Rightarrow> Inr None
            | Some s \<Rightarrow>
                (let parts = splitWs s;
                     mn = (case parts of [] \<Rightarrow> None | m # ps \<Rightarrow> Some m);
                     hour = (case parts of m # h # ps \<Rightarrow> Some h | _ \<Rightarrow> None);
                     next = setSeconds tz 0 0 (Some now);
                     next = (if mn \<noteq> Some ''*''
                             then setMinutes tz (case mn of None \<Rightarrow> None | Some m \<Rightarrow> parseInt m) next
                             else next);
                     next = (if hour \<noteq> Some ''*''
                             then setHours tz (case hour of None \<Rightarrow> None | Some h \<Rightarrow> parseInt h) next
                             else next);
                     next = (if dateLe next (Some now) then addDays tz 1 next else next)
                 in okSome (toISOString next)))
      else Inr None)"


section \<open>The job table and the command \<open>add\<close> (scheduler-cli.ts)\<close>

text \<open>
  The table \<open>cron_jobs\<close> is the list of its rows, in insertion order, with the counter of
  \<open>AUTOINCREMENT\<close>. A column that may be \<open>NULL\<close> is an option; \<open>NaN\<close> bound to a
  statement is stored as \<open>NULL\<close>. Creating the table and adding missing columns changes the
  schema only, not the rows.
\<close>

record job =
  job_id :: int
  name :: string
  schedule_type :: schedule_type
  schedule :: "string option"
  run_at :: "int option"
  interval_ms :: "int option"
  prompt :: string
  channel :: string
  enabled :: int
  delete_after_run :: int
  context_messages :: "int option"
  next_run_at :: "int option"
  last_run_at :: "int option"
  last_status :: "string option"
  last_error :: "string option"
  last_duration_ms :: "int option"
  created_at :: int
  updated_at :: int

record db =
  rows :: "job list"
  seq :: int

record clock =
  tParse :: int  \<comment> \<open>\<open>new Date()\<close> in \<open>parseDateTime\<close>\<close>
  tCalc :: int   \<comment> \<open>\<open>new Date()\<close> in \<open>calculateNextRun\<close>\<close>
  tDb :: int     \<comment> \<open>\<open>datetime('now')\<close> in the statements\<close>

record options =
  optDeleteAfterRun :: int
  optContextMessages :: "int option"
  optChannel :: string

datatype reply =
    ErrorExit string  \<comment> \<open>an error is printed and the process exits with status 1\<close>
  | Uncaught error    \<comment> \<open>an exception reaches \<open>main().catch\<close>: printed, exit status 1\<close>
  | Success string string schedule_type "int option" bool
      \<comment> \<open>\<open>success: true\<close> with \<open>action\<close>, \<open>name\<close>, \<open>type\<close>, \<open>next_run\<close>, \<open>delete_after_run\<close>\<close>

definition arg :: "string list \<Rightarrow> nat \<Rightarrow> string option" where
  \<comment> \<open>\<open>args[i]\<close>, \<open>None\<close> for \<open>undefined\<close>\<close>
  "arg args i = (if i < length args then Some (args ! i) else None)"

definition orNullStr :: "string option \<Rightarrow> string option" where
  \<comment> \<open>\<open>x || null\<close> on a string\<close>
  "orNullStr x = (if x = Some [] then None else x)"

definition orNullNum :: "int option \<Rightarrow> int option" where
  \<comment> \<open>\<open>x || null\<close> on a number\<close>
  "orNullNum x = (if x = Some 0 then None else x)"

definition mathMax :: "int \<Rightarrow> int option \<Rightarrow> int option" where
  \<comment> \<open>\<open>Math.max(a, b)\<close>, which is \<open>NaN\<close> when \<open>b\<close> is\<close>
  "mathMax a b = (case b of None \<Rightarrow> None | Some y \<Rightarrow> Some (max a y))"

definition mathMin :: "int \<Rightarrow> int option \<Rightarrow> int option" where
  "mathMin a b = (case b of None \<Rightarrow> None | Some y \<Rightarrow> Some (min a y))"

fun scanOptions :: "string list \<Rightarrow> options \<Rightarrow> options" where
  \<comment> \<open>\<open>for (let i = 4; i < args.length; i++)\<close> over \<open>args.slice(4)\<close>; \<open>args[++i]\<close> takes
      the next argument with it\<close>
  "scanOptions [] opts = opts"
| "scanOptions [a] opts =
     (if a = ''--delete-after'' then opts\<lparr>optDeleteAfterRun := 1\<rparr> else opts)"
| "scanOptions (a # b # rest) opts =
     (if a = ''--delete-after'' then scanOptions (b # rest) (opts\<lparr>optDeleteAfterRun := 1\<rparr>)
      else if a = ''--context'' \<and> b \<noteq> []
      then scanOptions rest (opts\<lparr>optContextMessages := mathMin 10 (mathMax 0 (parseInt b))\<rparr>)
      else if a = ''--channel'' \<and> b \<noteq> []
      then scanOptions rest (opts\<lparr>optChannel := b\<rparr>)
      else scanOptions (b # rest) opts)"

definition initialOptions :: options where
  \<comment> \<open>\<open>let deleteAfterRun = 0; let contextMessages = 0; let channel = 'desktop';\<close>\<close>
  "initialOptions = \<lparr>optDeleteAfterRun = 0, optContextMessages = Some 0, optChannel = ''desktop''\<rparr>"

definition selectByName :: "db \<Rightarrow> string \<Rightarrow> job option" where
  \<comment> \<open>\<open>SELECT id FROM cron_jobs WHERE name = ?\<close>, \<open>.get\<close>\<close>
  "selectByName d nm = find (\<lambda>r. name r = nm) (rows d)"

definition setColumns ::
  "int \<Rightarrow> parsed \<Rightarrow> string \<Rightarrow> string \<Rightarrow> int \<Rightarrow> int option \<Rightarrow> int option \<Rightarrow> job \<Rightarrow> job" where
  \<comment> \<open>the \<open>SET\<close> clause of the \<open>UPDATE\<close>, with the values bound to it\<close>
  "setColumns t p pr ch deleteAfterRun contextMessages nextRunAt r =
     r\<lparr>schedule_type := ptype p, schedule := orNullStr (pschedule p),
       run_at := prunAt p, interval_ms := orNullNum (pintervalMs p),
       prompt := pr, channel := ch, enabled := 1,
       delete_after_run := deleteAfterRun,
       context_messages := contextMessages, next_run_at := nextRunAt,
       updated_at := t\<rparr>"

definition updateJob ::
  "db \<Rightarrow> int \<Rightarrow> parsed \<Rightarrow> string \<Rightarrow> string \<Rightarrow> int \<Rightarrow> int option \<Rightarrow> int option \<Rightarrow> string \<Rightarrow> db" where
  \<comment> \<open>\<open>UPDATE cron_jobs SET ... WHERE name = ?\<close>\<close>
  "updateJob d t p pr ch deleteAfterRun contextMessages nextRunAt nm =
     d\<lparr>rows := map (\<lambda>r. if name r = nm
                          then setColumns t p pr ch deleteAfterRun contextMessages nextRunAt r
                          else r) (rows d)\<rparr>"

definition newJob ::
  "int \<Rightarrow> int \<Rightarrow> string \<Rightarrow> parsed \<Rightarrow> string \<Rightarrow> string \<Rightarrow> int \<Rightarrow> int option \<Rightarrow> int option \<Rightarrow> job" where
  \<comment> \<open>the row of the \<open>INSERT\<close>: the values bound to it, \<open>enabled\<close> 1, and the defaults of
      the other columns\<close>
  "newJob i t nm p pr ch deleteAfterRun contextMessages nextRunAt =
     \<lparr>job_id = i, name = nm, schedule_type = ptype p,
      schedule = orNullStr (pschedule p), run_at = prunAt p,
      interval_ms = orNullNum (pintervalMs p), prompt = pr, channel = ch,
      enabled = 1, delete_after_run = deleteAfterRun,
      context_messages = contextMessages, next_run_at = nextRunAt,
      last_run_at = None, last_status = None, last_error = None,
      last_duration_ms = None, created_at = t, updated_at = t\<rparr>"

definition insertJob ::
  "db \<Rightarrow> int \<Rightarrow> string \<Rightarrow> parsed \<Rightarrow> string \<Rightarrow> string \<Rightarrow> int \<Rightarrow> int option \<Rightarrow> int option \<Rightarrow> db" where
  \<comment> \<open>\<open>INSERT INTO cron_jobs (...) VALUES (...)\<close>\<close>
  "insertJob d t nm p pr ch deleteAfterRun contextMessages nextRunAt =
     d\<lparr>rows := rows d @
                [newJob (seq d + 1) t nm p pr ch deleteAfterRun contextMessages nextRunAt],
       seq := seq d + 1\<rparr>"

definition addJob :: "zone \<Rightarrow> (string \<Rightarrow> int option) \<Rightarrow> clock \<Rightarrow> db \<Rightarrow> string list \<Rightarrow> reply \<times> db" where
  \<comment> \<open>\<open>case 'add'\<close> of \<open>main\<close>; \<open>args\<close> is \<open>process.argv.slice(2)\<close>, whose first element is
      the command\<close>
  "addJob tz dateParse clk d args =
     (case (arg args 1, arg args 2, arg args 3) of
        (Some nm, Some scheduleStr, Some pr) \<Rightarrow>
          if nm = [] \<or> scheduleStr = [] \<or> pr = [] then (ErrorExit ''Usage'', d)
          else
            (case parseSchedule tz dateParse (tParse clk) scheduleStr of
               Inl e \<Rightarrow> (Uncaught e, d)
             | Inr None \<Rightarrow> (ErrorExit ''Could not parse schedule'', d)
             | Inr (Some p) \<Rightarrow>
                 (let opts = scanOptions (drop 4 args) initialOptions;
                      deleteAfterRun = (if ptype p = at then 1 else optDeleteAfterRun opts)
                  in case calculateNextRun tz (tCalc clk) (ptype p) (orNullStr (pschedule p))
                            (prunAt p) (orNullNum (pintervalMs p)) of
                       Inl e \<Rightarrow> (Uncaught e, d)
                     | Inr nextRunAt \<Rightarrow>
                         (case selectByName d nm of
                            Some existing \<Rightarrow>
                              (Success ''updated'' nm (ptype p) nextRunAt (deleteAfterRun = 1),
                               updateJob d (tDb clk) p pr (optChannel opts) deleteAfterRun
                                 (optContextMessages opts) nextRunAt nm)
                          | None \<Rightarrow>
                              (Success ''created'' nm (ptype p) nextRunAt (deleteAfterRun = 1),
                               insertJob d (tDb clk) nm p pr (optChannel opts) deleteAfterRun
                                 (optContextMessages opts) nextRunAt))))
      | _ \<Rightarrow> (ErrorExit ''Usage'', d))"

definition isSuccess :: "reply \<Rightarrow> bool" where
  "isSuccess r = (case r of Success action nm ty nxt del \<Rightarrow> True | _ \<Rightarrow> False)"

definition enabledJobs :: "db \<Rightarrow> job list" where
  \<comment> \<open>the rows a scheduler arms: \<open>WHERE enabled = 1\<close>\<close>
  "enabledJobs d = filter (\<lambda>r. enabled r = 1) (rows d)"

section \<open>The runtime of the examples\<close>

text \<open>
  The time zone and \<open>Date.parse\<close> belong to the runtime and are parameters of the model.
  The examples fix them. Two zones: UTC, and New York with its two changes of offset of the
  year 2024 (10 March at 07:00 UTC, from five to four hours behind UTC, and 3 November at
  06:00 UTC, back to five); a local time that the change skips or repeats is read with the
  offset in force before the change, as the language prescribes. And the two outcomes
  \<open>Date.parse\<close> can have on a text: \<open>NaN\<close>, or an instant. What an implementation reads
  as a date outside the ISO format is its own choice. Most examples are about texts that the
  classifier settles without the outcome of \<open>Date.parse\<close> (intervals, relative dates,
  accepted cron expressions) or that hold no number at all; for the others the example
  names the outcome it supposes.
\<close>

definition utcZone :: zone where
  "utcZone = \<lparr>offsetAtUTC = (\<lambda>t. 0), offsetAtLocal = (\<lambda>t. 0)\<rparr>"

definition newYork2024 :: zone where
  "newYork2024 =
     \<lparr>offsetAtUTC = (\<lambda>t. if 1710054000000 \<le> t \<and> t < 1730613600000 then - 14400000 else - 18000000),
      offsetAtLocal = (\<lambda>t. if 1710039600000 \<le> t \<and> t < 1730599200000 then - 14400000 else - 18000000)\<rparr>"

definition noDateParse :: "string \<Rightarrow> int option" where
  \<comment> \<open>a \<open>Date.parse\<close> that gives \<open>NaN\<close>\<close>
  "noDateParse s = None"

definition dateParseAs :: "int \<Rightarrow> string \<Rightarrow> int option" where
  \<comment> \<open>a \<open>Date.parse\<close> that reads the text as the instant \<open>t\<close>\<close>
  "dateParseAs t s = Some t"

section \<open>What the specification asks of a cron schedule\<close>





fun splitOn :: "char \<Rightarrow> string \<Rightarrow> string list" where
  "splitOn c [] = [[]]"
| "splitOn c (x # xs) =
     (if x = c then [] # splitOn c xs
      else (case splitOn c xs of [] \<Rightarrow> [[x]] | w # ws \<Rightarrow> (x # w) # ws))"

definition numeral_of :: "string \<Rightarrow> int option" where
  "numeral_of s = (if s \<noteq> [] \<and> list_all isDigit s then Some (digitsVal s) else None)"

definition fieldWritten :: "string \<Rightarrow> bool" where
  \<comment> \<open>a field that is not a number followed by other characters: it is \<open>*\<close>, or holds
      \<open>/\<close>, \<open>-\<close> or \<open>,\<close>, or is written in digits only, or does not begin with a digit
      or a sign\<close>
  "fieldWritten f =
     (f = ''*'' \<or> CHR ''/'' \<in> set f \<or> CHR ''-'' \<in> set f \<or> CHR '','' \<in> set f \<or>
      list_all isDigit f \<or> \<not> (isDigit (hd f) \<or> hd f = CHR ''+''))"

definition baseRange :: "int \<Rightarrow> int \<Rightarrow> bool \<Rightarrow> string \<Rightarrow> (int \<times> int) option" where
  \<comment> \<open>the values a \<open>*\<close>, an \<open>N\<close> or an \<open>N-M\<close> ranges over; a single \<open>N\<close> with a step runs up
      to the field's upper bound\<close>
  "baseRange lo hi stepped b =
     (if b = ''*'' then Some (lo, hi)
      else (case splitOn CHR ''-'' b of
              [n] \<Rightarrow> (case numeral_of n of None \<Rightarrow> None
                       | Some x \<Rightarrow> Some (x, if stepped then hi else x))
            | [n, m] \<Rightarrow> (case numeral_of n of None \<Rightarrow> None
                          | Some x \<Rightarrow> (case numeral_of m of None \<Rightarrow> None | Some y \<Rightarrow> Some (x, y)))
            | _ \<Rightarrow> None))"

definition itemRange :: "int \<Rightarrow> int \<Rightarrow> string \<Rightarrow> (int \<times> int \<times> int) option" where
  \<comment> \<open>Modelled from the spec: an item \<open>*\<close>, \<open>N\<close>, \<open>N-M\<close> or one of these with a step \<open>/S\<close>, read
      as (first, last, step)\<close>
  "itemRange lo hi item =
     (case splitOn CHR ''/'' item of
        [b] \<Rightarrow> (case baseRange lo hi False b of None \<Rightarrow> None | Some (x, y) \<Rightarrow> Some (x, y, 1))
      | [b, st] \<Rightarrow> (case numeral_of st of None \<Rightarrow> None
                    | Some k \<Rightarrow> (case baseRange lo hi True b of None \<Rightarrow> None
                                 | Some (x, y) \<Rightarrow> Some (x, y, k)))
      | _ \<Rightarrow> None)"

definition itemValid :: "int \<Rightarrow> int \<Rightarrow> string \<Rightarrow> bool" where
  \<comment> \<open>Modelled from the spec: the item is of the grammar and its numbers are within the bounds\<close>
  "itemValid lo hi item =
     (case itemRange lo hi item of
        None \<Rightarrow> False
      | Some (x, y, k) \<Rightarrow> lo \<le> x \<and> x \<le> y \<and> y \<le> hi \<and> 1 \<le> k)"

definition fieldValid :: "int \<times> int \<Rightarrow> string \<Rightarrow> bool" where
  \<comment> \<open>Modelled from the spec: a field is a comma list of valid items\<close>
  "fieldValid rng f = list_all (itemValid (fst rng) (snd rng)) (splitOn CHR '','' f)"

definition specCronValid :: "string \<Rightarrow> bool" where
  \<comment> \<open>Modelled from the spec: exactly 5 fields separated by white space, each valid for its
      bounds (minute 0-59, hour 0-23, day of month 1-31, month 1-12, weekday 0-7)\<close>
  "specCronValid s =
     (let fs = splitWs (trim s)
      in length fs = 5 \<and> list_all (\<lambda>(rng, f). fieldValid rng f) (zip cronRanges fs))"

definition itemMatches :: "int \<Rightarrow> int \<Rightarrow> int \<Rightarrow> string \<Rightarrow> bool" where
  "itemMatches lo hi v item =
     (case itemRange lo hi item of
        None \<Rightarrow> False
      | Some (x, y, k) \<Rightarrow> x \<le> v \<and> v \<le> y \<and> 1 \<le> k \<and> (v - x) mod k = 0)"

definition fieldMatches :: "int \<times> int \<Rightarrow> string \<Rightarrow> int \<Rightarrow> bool" where
  \<comment> \<open>Modelled from the spec: the value is one of those the field lists\<close>
  "fieldMatches rng f v = list_ex (itemMatches (fst rng) (snd rng) v) (splitOn CHR '','' f)"

definition civil :: "int \<Rightarrow> int \<times> int \<times> int" where
  \<comment> \<open>year, month (1 to 12) and day of the month of a day number (days since 1 January
      1970) in the Gregorian calendar\<close>
  "civil dn =
     (let z = dn + 719468;
          era = z div 146097;
          doe = z mod 146097;
          yoe = (doe - doe div 1460 + doe div 36524 - doe div 146096) div 365;
          doy = doe - (365 * yoe + yoe div 4 - yoe div 100);
          mp = (5 * doy + 2) div 153;
          d = doy - (153 * mp + 2) div 5 + 1;
          m = (if mp < 10 then mp + 3 else mp - 9);
          y = yoe + era * 400 + (if m \<le> 2 then 1 else 0)
      in (y, m, d))"

definition MonthFromTime :: "int \<Rightarrow> int" where
  \<comment> \<open>the month of a time value, 0 for January\<close>
  "MonthFromTime t = fst (snd (civil (Day t))) - 1"

definition DateFromTime :: "int \<Rightarrow> int" where
  \<comment> \<open>the day of the month of a time value\<close>
  "DateFromTime t = snd (snd (civil (Day t)))"

definition weekdayMatches :: "string \<Rightarrow> int \<Rightarrow> bool" where
  \<comment> \<open>0 and 7 both denote Sunday\<close>
  "weekdayMatches f t =
     (fieldMatches (0, 7) f (WeekDay t) \<or> (WeekDay t = 0 \<and> fieldMatches (0, 7) f 7))"

definition cronSatisfied :: "string \<Rightarrow> int \<Rightarrow> bool" where
  \<comment> \<open>Modelled from the spec: the time value \<open>t\<close> (a local time) is a whole minute and
      satisfies the five fields, the day of the month and the day of the week joined by OR
      when both are restricted\<close>
  "cronSatisfied s t =
     (case splitWs (trim s) of
        [fMin, fHour, fDom, fMon, fDow] \<Rightarrow>
          SecFromTime t = 0 \<and> msFromTime t = 0 \<and>
          fieldMatches (0, 59) fMin (MinFromTime t) \<and>
          fieldMatches (0, 23) fHour (HourFromTime t) \<and>
          fieldMatches (1, 12) fMon (MonthFromTime t + 1) \<and>
          (if fDom = ''*'' \<and> fDow = ''*'' then True
           else if fDom = ''*'' then weekdayMatches fDow t
           else if fDow = ''*'' then fieldMatches (1, 31) fDom (DateFromTime t)
           else fieldMatches (1, 31) fDom (DateFromTime t) \<or> weekdayMatches fDow t)
      | _ \<Rightarrow> False)"

definition atClock :: "int \<Rightarrow> int \<Rightarrow> int \<Rightarrow> bool" where
  \<comment> \<open>the time value is \<open>h:m:00.000\<close> of some day\<close>
  "atClock h m t = (HourFromTime t = h \<and> MinFromTime t = m \<and> SecFromTime t = 0 \<and> msFromTime t = 0)"

section \<open>Digits and numerals\<close>


lemma isDigit_not_space: "isDigit c \<Longrightarrow> \<not> isSpace c"
  by (auto simp: isDigit_def isSpace_def)

lemma isDigit_not_sign: "isDigit c \<Longrightarrow> c \<noteq> CHR ''-'' \<and> c \<noteq> CHR ''+''"
  by (auto simp: isDigit_def)




lemma takeWhile_digits_append:
  assumes "list_all isDigit ds" and "r = [] \<or> \<not> isDigit (hd r)"
  shows "takeWhile isDigit (ds @ r) = ds" and "dropWhile isDigit (ds @ r) = r"
proof -
  have a: "\<forall>x \<in> set ds. isDigit x" using assms(1) by (simp add: list_all_iff)
  have "takeWhile isDigit r = []" using assms(2) by (cases r) auto
  then show "takeWhile isDigit (ds @ r) = ds" using a by (simp add: takeWhile_append2)
  have "dropWhile isDigit r = r" using assms(2) by (cases r) auto
  then show "dropWhile isDigit (ds @ r) = r" using a by (simp add: dropWhile_append2)
qed

lemma parseInt_digits:
  assumes "ds \<noteq> []" and "list_all isDigit ds" and "r = [] \<or> \<not> isDigit (hd r)"
  shows "parseInt (ds @ r) = Some (digitsVal ds)"
proof -
  from assms(1) obtain c cs where ds: "ds = c # cs" by (cases ds) auto
  with assms(2) have c: "isDigit c" by simp
  have sp: "dropWhile isSpace (ds @ r) = ds @ r"
    using c isDigit_not_space[of c] by (simp add: ds)
  have hd: "hd (ds @ r) = c" by (simp add: ds)
  have tw: "takeWhile isDigit (ds @ r) = ds"
    using takeWhile_digits_append(1)[OF assms(2,3)] .
  show ?thesis
    unfolding parseInt_def sp Let_def using isDigit_not_sign[OF c] assms(1)
    by (simp add: hd tw del: takeWhile_append dropWhile_append)
qed

lemma parseInt_all_digits:
  assumes "ds \<noteq> []" and "list_all isDigit ds"
  shows "parseInt ds = Some (digitsVal ds)"
  using parseInt_digits[OF assms, of "[]"] by simp





section \<open>Days, weekdays and times of day\<close>





lemma MakeDate_days: "MakeDate (Day t + k) (TimeWithinDay t) = t + k * msPerDay"
proof -
  have "t = Day t * msPerDay + TimeWithinDay t" by (simp add: Day_def TimeWithinDay_def)
  then show ?thesis by (simp add: MakeDate_def algebra_simps)
qed

lemma addDays_steady:
  assumes "offsetAtUTC tz t = k" and "offsetAtLocal tz (t + d * msPerDay + k) = k"
  shows "addDays tz d (Some t) = timeClip (t + d * msPerDay)"
proof -
  have l: "LocalTime tz t = t + k" by (simp add: LocalTime_def assms(1))
  have e: "t + k + d * msPerDay = t + d * msPerDay + k" by simp
  have "UTC tz (t + k + d * msPerDay) = t + d * msPerDay"
    unfolding e by (simp add: UTC_def assms(2))
  then show ?thesis by (simp add: addDays_def Let_def l MakeDate_days)
qed

lemma Day_bounds: "Day t * msPerDay \<le> t \<and> t < Day t * msPerDay + msPerDay"
proof -
  have "t = Day t * msPerDay + t mod msPerDay" by (simp add: Day_def)
  moreover have "0 \<le> t mod msPerDay \<and> t mod msPerDay < msPerDay" by (simp add: msPerDay_def)
  ultimately show ?thesis by linarith
qed

lemma Day_make:
  assumes "0 \<le> x" and "x < msPerDay"
  shows "Day (d * msPerDay + x) = d"
  using assms by (simp add: Day_def msPerDay_def)


lemma time_decompose:
  "t = Day t * msPerDay + HourFromTime t * 3600000 + MinFromTime t * 60000 +
       SecFromTime t * 1000 + msFromTime t"
proof -
  have d1: "t div 60000 = (t div 1000) div 60"
    using zdiv_zmult2_eq[of 60 t 1000] by simp
  have d2: "t div 3600000 = (t div 60000) div 60"
    using zdiv_zmult2_eq[of 60 t 60000] by simp
  have d3: "t div 86400000 = (t div 3600000) div 24"
    using zdiv_zmult2_eq[of 24 t 3600000] by simp
  have e0: "t = 1000 * (t div 1000) + t mod 1000" by simp
  have e1: "t div 1000 = 60 * (t div 60000) + (t div 1000) mod 60" unfolding d1 by simp
  have e2: "t div 60000 = 60 * (t div 3600000) + (t div 60000) mod 60" unfolding d2 by simp
  have e3: "t div 3600000 = 24 * (t div 86400000) + (t div 3600000) mod 24" unfolding d3 by simp
  show ?thesis
    unfolding Day_def msPerDay_def HourFromTime_def MinFromTime_def SecFromTime_def msFromTime_def
    using e0 e1 e2 e3 by linarith
qed

lemma clock_make:
  assumes "0 \<le> h" "h \<le> 23" "0 \<le> m" "m \<le> 59"
  shows "Day (d * msPerDay + h * 3600000 + m * 60000) = d"
    and "atClock h m (d * msPerDay + h * 3600000 + m * 60000)"
proof -
  define r where "r = d * msPerDay + h * 3600000 + m * 60000"
  have r1: "r = 86400000 * d + (h * 3600000 + m * 60000)" by (simp add: r_def msPerDay_def)
  have r2: "r = 3600000 * (24 * d + h) + m * 60000" by (simp add: r_def msPerDay_def)
  have r3: "r = 60000 * (1440 * d + 60 * h + m) + 0" by (simp add: r_def msPerDay_def)
  have r4: "r = 1000 * (86400 * d + 3600 * h + 60 * m) + 0" by (simp add: r_def msPerDay_def)
  have dd: "r div 86400000 = d"
    by (rule int_div_pos_eq[OF r1]) (use assms in auto)
  have hh: "r div 3600000 = 24 * d + h"
    by (rule int_div_pos_eq[OF r2]) (use assms in auto)
  have mm: "r div 60000 = 1440 * d + 60 * h + m"
    by (rule int_div_pos_eq[OF r3]) auto
  have ss: "r div 1000 = 86400 * d + 3600 * h + 60 * m"
    by (rule int_div_pos_eq[OF r4]) auto
  have ms: "r mod 1000 = 0"
    by (rule int_mod_pos_eq[OF r4]) auto
  have e24: "24 * d + h = 24 * d + h" by simp
  have h24: "(24 * d + h) mod 24 = h"
    by (rule int_mod_pos_eq[OF e24]) (use assms in auto)
  have e60: "1440 * d + 60 * h + m = 60 * (24 * d + h) + m" by simp
  have m60: "(1440 * d + 60 * h + m) mod 60 = m"
    by (rule int_mod_pos_eq[OF e60]) (use assms in auto)
  have f60: "86400 * d + 3600 * h + 60 * m = 60 * (1440 * d + 60 * h + m) + 0" by simp
  have s60: "(86400 * d + 3600 * h + 60 * m) mod 60 = 0"
    by (rule int_mod_pos_eq[OF f60]) auto
  have "Day r = d" by (simp only: Day_def msPerDay_def dd)
  then show "Day (d * msPerDay + h * 3600000 + m * 60000) = d" by (simp only: r_def)
  have 1: "HourFromTime r = h" by (simp only: HourFromTime_def hh h24)
  have 2: "MinFromTime r = m" by (simp only: MinFromTime_def mm m60)
  have 3: "SecFromTime r = 0" by (simp only: SecFromTime_def ss s60)
  have 4: "msFromTime r = 0" by (simp only: msFromTime_def ms)
  have "atClock h m r" by (simp only: atClock_def 1 2 3 4)
  then show "atClock h m (d * msPerDay + h * 3600000 + m * 60000)" by (simp only: r_def)
qed

lemma atClock_eq:
  assumes "atClock h m t"
  shows "t = Day t * msPerDay + h * 3600000 + m * 60000"
  using time_decompose[of t] assms by (simp add: atClock_def)

lemma atClock_least:
  fixes now h m :: int
  assumes "0 \<le> h" "h \<le> 23" "0 \<le> m" "m \<le> 59"
  defines "c \<equiv> Day now * msPerDay + h * 3600000 + m * 60000"
  defines "r \<equiv> (if c \<le> now then c + msPerDay else c)"
  shows "now < r" and "atClock h m r" and "\<forall>t. now < t \<and> atClock h m t \<longrightarrow> r \<le> t"
    and "r \<le> now + msPerDay"
proof -
  have nb: "Day now * msPerDay \<le> now \<and> now < Day now * msPerDay + msPerDay"
    using Day_bounds .
  have c0: "Day now * msPerDay \<le> c" using assms(1,3) by (simp add: c_def)
  have c1: "c < Day now * msPerDay + msPerDay" using assms(2,4) by (simp add: c_def msPerDay_def)
  show "now < r" using nb c0 by (auto simp: r_def)
  show "r \<le> now + msPerDay" using nb c1 c0 by (auto simp: r_def)
  have a0: "atClock h m c" unfolding c_def using clock_make(2)[OF assms(1-4)] .
  have "c + msPerDay = (Day now + 1) * msPerDay + h * 3600000 + m * 60000"
    by (simp add: c_def algebra_simps)
  then have a1: "atClock h m (c + msPerDay)" using clock_make(2)[OF assms(1-4), of "Day now + 1"] by simp
  show "atClock h m r" using a0 a1 by (simp add: r_def)
  show "\<forall>t. now < t \<and> atClock h m t \<longrightarrow> r \<le> t"
  proof (intro allI impI)
    fix t assume t: "now < t \<and> atClock h m t"
    then have te: "t = Day t * msPerDay + h * 3600000 + m * 60000" using atClock_eq by blast
    have tb: "Day t * msPerDay \<le> t \<and> t < Day t * msPerDay + msPerDay" using Day_bounds .
    have dge: "Day now \<le> Day t"
    proof (rule ccontr)
      assume "\<not> Day now \<le> Day t"
      then have "Day t + 1 \<le> Day now" by simp
      then have "(Day t + 1) * msPerDay \<le> Day now * msPerDay" by (simp add: msPerDay_def)
      then have "Day t * msPerDay + msPerDay \<le> Day now * msPerDay" by (simp add: algebra_simps)
      with tb nb t show False by linarith
    qed
    show "r \<le> t"
    proof (cases "Day t = Day now")
      case True
      with te have "t = c" by (simp add: c_def)
      with t show ?thesis by (simp add: r_def)
    next
      case False
      with dge have "Day now + 1 \<le> Day t" by simp
      then have "(Day now + 1) * msPerDay \<le> Day t * msPerDay" by (simp add: msPerDay_def)
      then have "c + msPerDay \<le> t"
        using te by (simp add: c_def algebra_simps)
      then show ?thesis by (simp add: r_def msPerDay_def)
    qed
  qed
qed

section \<open>Relative dates: \<open>parseDateTime\<close>\<close>

lemma takeWhile_full:
  assumes "length (takeWhile P xs) = n" and "length xs \<le> n"
  shows "list_all P xs"
proof -
  have "length (takeWhile P xs) + length (dropWhile P xs) = length xs"
    by (metis length_append takeWhile_dropWhile_id)
  with assms have "length (dropWhile P xs) = 0" by linarith
  then have "\<forall>x \<in> set xs. P x" by (simp add: dropWhile_eq_Nil_conv)
  then show ?thesis by (simp add: list_all_iff)
qed







section \<open>Interval schedules\<close>













section \<open>Cron schedules: the next run\<close>

lemma HourFromTime_range: "0 \<le> HourFromTime t \<and> HourFromTime t \<le> 23"
  by (simp add: HourFromTime_def)

lemma MinFromTime_range: "0 \<le> MinFromTime t \<and> MinFromTime t \<le> 59"
  by (simp add: MinFromTime_def)

lemma setSeconds_steady:
  assumes "offsetAtUTC tz t = k"
      and "offsetAtLocal tz (Day (t + k) * msPerDay + HourFromTime (t + k) * 3600000 +
                               MinFromTime (t + k) * 60000) = k"
  shows "setSeconds tz 0 0 (Some t) =
           timeClip (Day (t + k) * msPerDay + HourFromTime (t + k) * 3600000 +
                     MinFromTime (t + k) * 60000 - k)"
proof -
  have l: "LocalTime tz t = t + k" by (simp add: LocalTime_def assms(1))
  show ?thesis
    using assms(2) by (simp add: setSeconds_def Let_def l MakeDate_def MakeTime_def UTC_def add.assoc)
qed

lemma setMinutes_steady:
  assumes "0 \<le> h" "h \<le> 23" "0 \<le> m" "m \<le> 59"
      and "offsetAtUTC tz (d * msPerDay + h * 3600000 + m * 60000 - k) = k"
      and "offsetAtLocal tz (d * msPerDay + h * 3600000 + m' * 60000) = k"
  shows "setMinutes tz (Some m') (Some (d * msPerDay + h * 3600000 + m * 60000 - k)) =
           timeClip (d * msPerDay + h * 3600000 + m' * 60000 - k)"
proof -
  define t where "t = d * msPerDay + h * 3600000 + m * 60000"
  have dd: "Day t = d" unfolding t_def using clock_make(1)[OF assms(1-4), of d] .
  have "atClock h m t" unfolding t_def using clock_make(2)[OF assms(1-4), of d] .
  then have cl: "HourFromTime t = h" "MinFromTime t = m" "SecFromTime t = 0" "msFromTime t = 0"
    by (simp_all add: atClock_def)
  have l: "LocalTime tz (t - k) = t" using assms(5) by (simp add: LocalTime_def t_def)
  have "setMinutes tz (Some m') (Some (t - k)) = timeClip (d * msPerDay + h * 3600000 + m' * 60000 - k)"
    using assms(6) by (simp add: setMinutes_def Let_def l dd cl MakeDate_def MakeTime_def UTC_def add.assoc)
  then show ?thesis by (simp only: t_def)
qed

lemma setHours_steady:
  assumes "0 \<le> h" "h \<le> 23" "0 \<le> m" "m \<le> 59"
      and "offsetAtUTC tz (d * msPerDay + h * 3600000 + m * 60000 - k) = k"
      and "offsetAtLocal tz (d * msPerDay + h' * 3600000 + m * 60000) = k"
  shows "setHours tz (Some h') (Some (d * msPerDay + h * 3600000 + m * 60000 - k)) =
           timeClip (d * msPerDay + h' * 3600000 + m * 60000 - k)"
proof -
  define t where "t = d * msPerDay + h * 3600000 + m * 60000"
  have dd: "Day t = d" unfolding t_def using clock_make(1)[OF assms(1-4), of d] .
  have "atClock h m t" unfolding t_def using clock_make(2)[OF assms(1-4), of d] .
  then have cl: "HourFromTime t = h" "MinFromTime t = m" "SecFromTime t = 0" "msFromTime t = 0"
    by (simp_all add: atClock_def)
  have l: "LocalTime tz (t - k) = t" using assms(5) by (simp add: LocalTime_def t_def)
  have "setHours tz (Some h') (Some (t - k)) = timeClip (d * msPerDay + h' * 3600000 + m * 60000 - k)"
    using assms(6) by (simp add: setHours_def Let_def l dd cl MakeDate_def MakeTime_def UTC_def add.assoc)
  then show ?thesis by (simp only: t_def)
qed

lemma same_day_window:
  assumes "0 \<le> h" "h \<le> 23" "0 \<le> m" "m \<le> 59"
  shows "L - msPerDay \<le> Day L * msPerDay + h * 3600000 + m * 60000 \<and>
         Day L * msPerDay + h * 3600000 + m * 60000 \<le> L + msPerDay"
  using Day_bounds[of L] assms by (simp add: msPerDay_def)

lemma calculateNextRun_cron_steady:
  assumes "splitWs sched = fMin # fHour # rest"
      and "(fMin = ''*'' \<and> m = MinFromTime (LocalTime tz now)) \<or>
           (parseInt fMin = Some m \<and> 0 \<le> m \<and> m \<le> 59)"
      and "(fHour = ''*'' \<and> h = HourFromTime (LocalTime tz now)) \<or>
           (parseInt fHour = Some h \<and> 0 \<le> h \<and> h \<le> 23)"
      and "0 \<le> now" and "now \<le> 8000000000000000"
      and "\<forall>t. now - msPerDay \<le> t \<and> t \<le> now + msPerDay \<longrightarrow>
               offsetAtUTC tz t = k \<and> offsetAtLocal tz (t + k) = k"
  shows "\<exists>r. calculateNextRun tz now cron (Some sched) runAt intervalMs = Inr (Some r) \<and>
             now < r \<and> r \<le> now + msPerDay \<and> atClock h m (LocalTime tz r) \<and>
             (\<forall>t. now < t \<and> atClock h m (LocalTime tz t) \<longrightarrow> r \<le> t)"
proof -
  define L where "L = now + k"
  define D where "D = Day L"
  define H where "H = HourFromTime L"
  define M where "M = MinFromTime L"
  have win: "\<And>l. L - msPerDay \<le> l \<Longrightarrow> l \<le> L + msPerDay \<Longrightarrow>
                 offsetAtUTC tz (l - k) = k \<and> offsetAtLocal tz l = k \<and> timeClip (l - k) = Some (l - k)"
  proof -
    fix l assume a: "L - msPerDay \<le> l" "l \<le> L + msPerDay"
    then have w: "now - msPerDay \<le> l - k \<and> l - k \<le> now + msPerDay" by (simp add: L_def)
    with assms(6) have "offsetAtUTC tz (l - k) = k \<and> offsetAtLocal tz (l - k + k) = k" by blast
    moreover have "\<bar>l - k\<bar> \<le> 8640000000000000"
      using w assms(4,5) unfolding msPerDay_def by linarith
    then have "timeClip (l - k) = Some (l - k)" by (simp add: timeClip_def)
    ultimately show "offsetAtUTC tz (l - k) = k \<and> offsetAtLocal tz l = k \<and>
                     timeClip (l - k) = Some (l - k)" by simp
  qed
  have o0: "offsetAtUTC tz now = k" using win[of L] by (simp add: L_def msPerDay_def)
  have ln: "LocalTime tz now = L" by (simp add: LocalTime_def o0 L_def)
  have Hr: "0 \<le> H" "H \<le> 23" using HourFromTime_range[of L] by (simp_all add: H_def)
  have Mr: "0 \<le> M" "M \<le> 59" using MinFromTime_range[of L] by (simp_all add: M_def)
  have mr: "0 \<le> m" "m \<le> 59" using assms(2) Mr by (auto simp: M_def ln)
  have hr: "0 \<le> h" "h \<le> 23" using assms(3) Hr by (auto simp: H_def ln)
  have ne: "sched \<noteq> []" using assms(1) by auto
  have star: "parseInt ''*'' = None" by code_simp
  define l0 where "l0 = D * msPerDay + H * 3600000 + M * 60000"
  define l1 where "l1 = D * msPerDay + H * 3600000 + m * 60000"
  define l2 where "l2 = D * msPerDay + h * 3600000 + m * 60000"
  note w0 = win[OF same_day_window[OF Hr Mr, of L, THEN conjunct1] same_day_window[OF Hr Mr, of L, THEN conjunct2],
      folded D_def, folded l0_def]
  note w1 = win[OF same_day_window[OF Hr mr, of L, THEN conjunct1] same_day_window[OF Hr mr, of L, THEN conjunct2],
      folded D_def, folded l1_def]
  note w2 = win[OF same_day_window[OF hr mr, of L, THEN conjunct1] same_day_window[OF hr mr, of L, THEN conjunct2],
      folded D_def, folded l2_def]
  have n0: "setSeconds tz 0 0 (Some now) = Some (l0 - k)"
  proof -
    have "offsetAtLocal tz (Day (now + k) * msPerDay + HourFromTime (now + k) * 3600000 +
                               MinFromTime (now + k) * 60000) = k"
      using w0 by (simp add: l0_def D_def H_def M_def L_def)
    from setSeconds_steady[OF o0 this] show ?thesis
      using w0 by (simp add: l0_def D_def H_def M_def L_def)
  qed
  define next1 where "next1 = (if Some fMin \<noteq> Some ''*''
                             then setMinutes tz (parseInt fMin) (setSeconds tz 0 0 (Some now))
                             else setSeconds tz 0 0 (Some now))"
  have n1: "next1 = Some (l1 - k)"
  proof (cases "fMin = ''*''")
    case True
    with assms(2) star have "m = M" by (auto simp: M_def ln)
    with True n0 show ?thesis by (simp add: next1_def l0_def l1_def)
  next
    case False
    with assms(2) have p: "parseInt fMin = Some m" by auto
    have "setMinutes tz (Some m) (Some (l0 - k)) = timeClip (l1 - k)"
      unfolding l0_def l1_def
      by (rule setMinutes_steady[OF Hr Mr]) (use w0 w1 in \<open>simp_all add: l0_def l1_def\<close>)
    then show ?thesis using False w1 by (simp add: next1_def n0 p)
  qed
  define next2 where "next2 = (if Some fHour \<noteq> Some ''*''
                             then setHours tz (parseInt fHour) next1 else next1)"
  have n2: "next2 = Some (l2 - k)"
  proof (cases "fHour = ''*''")
    case True
    with assms(3) star have "h = H" by (auto simp: H_def ln)
    with True n1 show ?thesis by (simp add: next2_def l1_def l2_def)
  next
    case False
    with assms(3) have p: "parseInt fHour = Some h" by auto
    have "setHours tz (Some h) (Some (l1 - k)) = timeClip (l2 - k)"
      unfolding l1_def l2_def
      by (rule setHours_steady[OF Hr mr]) (use w1 w2 in \<open>simp_all add: l1_def l2_def\<close>)
    then show ?thesis using False w2 by (simp add: next2_def n1 p)
  qed
  define rl where "rl = (if l2 \<le> L then l2 + msPerDay else l2)"
  define r where "r = rl - k"
  note least = atClock_least[OF hr(1,2) mr(1,2), of L, folded D_def, folded l2_def, folded rl_def]
  have wr: "offsetAtUTC tz r = k \<and> offsetAtLocal tz rl = k \<and> timeClip r = Some r"
    unfolding r_def by (rule win) (use least(1,4) in \<open>simp_all add: msPerDay_def\<close>)
  have lr: "LocalTime tz r = rl" using wr by (simp add: LocalTime_def r_def)
  have n3: "(if dateLe next2 (Some now) then addDays tz 1 next2 else next2) = Some r"
  proof (cases "l2 \<le> L")
    case True
    then have rl1: "rl = l2 + 1 * msPerDay" by (simp add: rl_def)
    have le: "l2 - k \<le> now" using True by (simp add: L_def)
    have "offsetAtLocal tz (l2 - k + 1 * msPerDay + k) = k" using wr by (simp add: rl1)
    from addDays_steady[OF w2[THEN conjunct1] this]
    have "addDays tz 1 (Some (l2 - k)) = timeClip r" by (simp add: r_def rl1 algebra_simps)
    with le wr show ?thesis by (simp add: n2 dateLe_def)
  next
    case False
    then have "rl = l2" by (simp add: rl_def)
    moreover have "\<not> l2 - k \<le> now" using False by (simp add: L_def)
    ultimately show ?thesis by (simp add: n2 dateLe_def r_def)
  qed
  have cn: "calculateNextRun tz now cron (Some sched) runAt intervalMs =
              okSome (toISOString (if dateLe next2 (Some now) then addDays tz 1 next2 else next2))"
    unfolding next2_def next1_def by (simp add: calculateNextRun_def Let_def assms(1) ne)
  have res: "calculateNextRun tz now cron (Some sched) runAt intervalMs = Inr (Some r)"
    unfolding cn n3 by (simp add: toISOString_def okSome_def)
  have gt: "now < r" using least(1) by (simp add: r_def L_def)
  have ub: "r \<le> now + msPerDay" using least(4) by (simp add: r_def L_def)
  have ck: "atClock h m (LocalTime tz r)" using least(2) by (simp add: lr)
  have mn: "\<forall>t. now < t \<and> atClock h m (LocalTime tz t) \<longrightarrow> r \<le> t"
  proof (intro allI impI)
    fix t assume t: "now < t \<and> atClock h m (LocalTime tz t)"
    show "r \<le> t"
    proof (cases "t \<le> now + msPerDay")
      case True
      with t assms(6) have "offsetAtUTC tz t = k" by (simp add: msPerDay_def)
      then have "LocalTime tz t = t + k" by (simp add: LocalTime_def)
      with t have "L < t + k \<and> atClock h m (t + k)" by (simp add: L_def)
      with least(3) have "rl \<le> t + k" by blast
      then show ?thesis by (simp add: r_def)
    next
      case False
      with ub show ?thesis by simp
    qed
  qed
  from res gt ub ck mn show ?thesis by blast
qed

text \<open>
  Claim C1, as amended. Hours and minutes are those of the time zone of the process, and the
  zone keeps one offset from UTC from a day before \<open>now\<close> to a day after.
  \<open>calculateNextRun\<close> reads the first two fields only. When each of them is \<open>*\<close> or
  a number within its bounds, the result is the earliest instant strictly
  after \<open>now\<close>, on a whole minute, whose minute is the number of the minute field (the
  minute of \<open>now\<close> for \<open>*\<close>) and whose hour is the number of the hour field (the hour of
  \<open>now\<close> for \<open>*\<close>); it lies at most a day ahead. The fields of the day of the month, the
  month and the weekday are not read.
\<close>

theorem cron_next_run_minute_hour:
  assumes "splitWs sched = fMin # fHour # rest"
      and "(fMin = ''*'' \<and> m = MinFromTime (LocalTime tz now)) \<or>
           (numeral_of fMin = Some m \<and> 0 \<le> m \<and> m \<le> 59)"
      and "(fHour = ''*'' \<and> h = HourFromTime (LocalTime tz now)) \<or>
           (numeral_of fHour = Some h \<and> 0 \<le> h \<and> h \<le> 23)"
      and "0 \<le> now" and "now \<le> 8000000000000000"
      and "\<forall>t. now - msPerDay \<le> t \<and> t \<le> now + msPerDay \<longrightarrow>
               offsetAtUTC tz t = k \<and> offsetAtLocal tz (t + k) = k"
  shows "\<exists>r. calculateNextRun tz now cron (Some sched) runAt intervalMs = Inr (Some r) \<and>
             now < r \<and> r \<le> now + msPerDay \<and> atClock h m (LocalTime tz r) \<and>
             (\<forall>t. now < t \<and> atClock h m (LocalTime tz t) \<longrightarrow> r \<le> t)"
proof -
  have num: "\<And>f n. numeral_of f = Some n \<Longrightarrow> parseInt f = Some n"
  proof -
    fix f n assume "numeral_of f = Some n"
    then have "f \<noteq> []" "list_all isDigit f" "n = digitsVal f"
      by (auto simp: numeral_of_def split: if_splits)
    then show "parseInt f = Some n" using parseInt_all_digits by simp
  qed
  have a2: "(fMin = ''*'' \<and> m = MinFromTime (LocalTime tz now)) \<or>
            (parseInt fMin = Some m \<and> 0 \<le> m \<and> m \<le> 59)"
    using assms(2) num by blast
  have a3: "(fHour = ''*'' \<and> h = HourFromTime (LocalTime tz now)) \<or>
            (parseInt fHour = Some h \<and> 0 \<le> h \<and> h \<le> 23)"
    using assms(3) num by blast
  show ?thesis
    using calculateNextRun_cron_steady[OF assms(1) a2 a3 assms(4,5,6)] .
qed

theorem cron_next_run_witness:
  "splitWs ''0 9 * * *'' = [''0'', ''9'', ''*'', ''*'', ''*''] \<and>
   numeral_of ''0'' = Some 0 \<and> numeral_of ''9'' = Some 9 \<and>
   LocalTime newYork2024 1704103200000 = 1704085200000 \<and>
   calculateNextRun newYork2024 1704103200000 cron (Some ''0 9 * * *'') None None =
     Inr (Some 1704117600000) \<and>
   (1704103200000::int) < 1704117600000 \<and>
   atClock 9 0 (LocalTime newYork2024 1704117600000) \<and>
   cronSatisfied ''0 9 * * *'' (LocalTime newYork2024 1704117600000)"
proof -
  have s: "splitWs ''0 9 * * *'' = ''0'' # ''9'' # [''*'', ''*'', ''*'']" by code_simp
  have p0: "numeral_of ''0'' = Some 0" by code_simp
  have p9: "numeral_of ''9'' = Some 9" by code_simp
  have l: "LocalTime newYork2024 1704103200000 = 1704085200000" by code_simp
  have st: "\<forall>t. 1704103200000 - msPerDay \<le> t \<and> t \<le> 1704103200000 + msPerDay \<longrightarrow>
               offsetAtUTC newYork2024 t = - 18000000 \<and>
               offsetAtLocal newYork2024 (t + - 18000000) = - 18000000"
    by (simp add: newYork2024_def msPerDay_def)
  have ev: "calculateNextRun newYork2024 1704103200000 cron (Some ''0 9 * * *'') None None =
              Inr (Some 1704117600000)"
    by code_simp
  have sat: "cronSatisfied ''0 9 * * *'' (LocalTime newYork2024 1704117600000)" by code_simp
  from cron_next_run_minute_hour[OF s _ _ _ _ st, of 0 9 None None] p0 p9
  obtain r where r: "calculateNextRun newYork2024 1704103200000 cron (Some ''0 9 * * *'') None None = Inr (Some r)"
    "1704103200000 < r" "atClock 9 0 (LocalTime newYork2024 r)"
    by auto
  from r(1) ev have "r = 1704117600000" by simp
  with r s p0 p9 l ev sat show ?thesis by simp
qed

text \<open>
  Claim C1 as it is stated fails. In UTC, on Monday 1 January 2024 at 10:00 the next run of
  \<open>0 9 * * 1\<close> (Mondays), of \<open>0 9 1 * *\<close> (the first of the month) and of \<open>0 9 * 6 *\<close> (June),
  all of them valid, is computed as Tuesday 2 January at 09:00, which satisfies none of
  them. At 10:00:30 the next run of \<open>* * * * *\<close> is 10:00 of the next day, although 10:01 of
  the same day satisfies it. A step in the minute field makes the call throw. And where
  the offset of the zone changes, the hour may not be the one asked for and the next day
  may be more than 24 hours ahead: in New York on 10 March 2024 at midnight the next run of
  \<open>30 2 * * *\<close> is 03:30, and on 2 November at 09:30 the next run of \<open>0 9 * * *\<close> is 24
  hours and a half later.
\<close>

theorem cron_next_run_counterexample:
  "specCronValid ''0 9 * * 1'' \<and> validateCron ''0 9 * * 1'' \<and>
   calculateNextRun utcZone 1704103200000 cron (Some ''0 9 * * 1'') None None = Inr (Some 1704186000000) \<and>
   LocalTime utcZone 1704186000000 = 1704186000000 \<and>
   getDay utcZone 1704186000000 = 2 \<and> \<not> cronSatisfied ''0 9 * * 1'' 1704186000000 \<and>
   specCronValid ''0 9 1 * *'' \<and> validateCron ''0 9 1 * *'' \<and>
   calculateNextRun utcZone 1704103200000 cron (Some ''0 9 1 * *'') None None = Inr (Some 1704186000000) \<and>
   DateFromTime 1704186000000 = 2 \<and> \<not> cronSatisfied ''0 9 1 * *'' 1704186000000 \<and>
   specCronValid ''0 9 * 6 *'' \<and> validateCron ''0 9 * 6 *'' \<and>
   calculateNextRun utcZone 1704103200000 cron (Some ''0 9 * 6 *'') None None = Inr (Some 1704186000000) \<and>
   MonthFromTime 1704186000000 = 0 \<and> \<not> cronSatisfied ''0 9 * 6 *'' 1704186000000 \<and>
   calculateNextRun utcZone 1704103230000 cron (Some ''* * * * *'') None None = Inr (Some 1704189600000) \<and>
   cronSatisfied ''* * * * *'' 1704103260000 \<and>
   (1704103230000::int) < 1704103260000 \<and> (1704103260000::int) < 1704189600000 \<and>
   specCronValid ''*/30 * * * *'' \<and> validateCron ''*/30 * * * *'' \<and>
   calculateNextRun utcZone 1704103230000 cron (Some ''*/30 * * * *'') None None = Inl RangeError \<and>
   calculateNextRun newYork2024 1710046800000 cron (Some ''30 2 * * *'') None None = Inr (Some 1710055800000) \<and>
   HourFromTime (LocalTime newYork2024 1710055800000) = 3 \<and>
   \<not> cronSatisfied ''30 2 * * *'' (LocalTime newYork2024 1710055800000) \<and>
   calculateNextRun newYork2024 1730554200000 cron (Some ''0 9 * * *'') None None = Inr (Some 1730642400000) \<and>
   (1730642400000::int) - 1730554200000 = 88200000 \<and> msPerDay < 88200000"
  by code_simp

section \<open>Properties of the command \<open>add\<close>\<close>



lemma updateJob_names: "map name (rows (updateJob d t p pr ch del ctx nxt nm)) = map name (rows d)"
  by (simp add: updateJob_def setColumns_def)

lemma updateJob_ids: "map job_id (rows (updateJob d t p pr ch del ctx nxt nm)) = map job_id (rows d)"
  by (simp add: updateJob_def setColumns_def)

lemma updateJob_row:
  assumes "r \<in> set (rows (updateJob d t p pr ch del ctx nxt nm))" and "name r = nm"
  shows "\<exists>r0 \<in> set (rows d). name r0 = nm \<and> r = setColumns t p pr ch del ctx nxt r0"
proof -
  from assms(1) obtain r0 where r0: "r0 \<in> set (rows d)"
    and r: "r = (if name r0 = nm then setColumns t p pr ch del ctx nxt r0 else r0)"
    by (auto simp: updateJob_def)
  show ?thesis
  proof (cases "name r0 = nm")
    case True
    with r0 r show ?thesis by auto
  next
    case False
    with r assms(2) show ?thesis by simp
  qed
qed

lemma updateJob_others:
  assumes "i < length (rows d)" and "name (rows d ! i) \<noteq> nm"
  shows "rows (updateJob d t p pr ch del ctx nxt nm) ! i = rows d ! i"
  using assms by (simp add: updateJob_def)


lemma addJob_Success:
  assumes "addJob tz dateParse clk d args = (Success action nm ty nxt del, d')"
  shows "\<exists>scheduleStr pr p opts dar.
    arg args 1 = Some nm \<and> arg args 2 = Some scheduleStr \<and> arg args 3 = Some pr \<and>
    parseSchedule tz dateParse (tParse clk) scheduleStr = Inr (Some p) \<and>
    opts = scanOptions (drop 4 args) initialOptions \<and>
    dar = (if ptype p = at then 1 else optDeleteAfterRun opts) \<and>
    calculateNextRun tz (tCalc clk) (ptype p) (orNullStr (pschedule p)) (prunAt p) (orNullNum (pintervalMs p)) = Inr nxt \<and>
    ty = ptype p \<and> del = (dar = 1) \<and>
    (if selectByName d nm = None
     then action = ''created'' \<and> d' = insertJob d (tDb clk) nm p pr (optChannel opts) dar (optContextMessages opts) nxt
     else action = ''updated'' \<and> d' = updateJob d (tDb clk) p pr (optChannel opts) dar (optContextMessages opts) nxt nm)"
proof -
  obtain a1 a2 a3 where a: "arg args 1 = Some a1" "arg args 2 = Some a2" "arg args 3 = Some a3"
    using assms by (auto simp: addJob_def split: option.splits)
  have ne: "a1 \<noteq> [] \<and> a2 \<noteq> [] \<and> a3 \<noteq> []"
    using assms a by (auto simp: addJob_def split: if_splits)
  obtain p where p: "parseSchedule tz dateParse (tParse clk) a2 = Inr (Some p)"
    using assms a ne by (auto simp: addJob_def split: sum.splits option.splits)
  obtain n where n: "calculateNextRun tz (tCalc clk) (ptype p) (orNullStr (pschedule p)) (prunAt p) (orNullNum (pintervalMs p)) = Inr n"
    using assms a ne p by (auto simp: addJob_def Let_def split: sum.splits)
  show ?thesis
    using assms a ne p n by (cases "selectByName d a1") (auto simp: addJob_def Let_def)
qed

lemma filter_name_unique:
  assumes "distinct (map name rs)" and "r \<in> set rs"
  shows "length (filter (\<lambda>x. name x = name r) rs) = 1"
  using assms
proof (induction rs)
  case Nil
  then show ?case by simp
next
  case (Cons a rs)
  show ?case
  proof (cases "a = r")
    case True
    from Cons.prems(1) True have "name r \<notin> name ` set rs" by simp
    then have "\<forall>x \<in> set rs. name x \<noteq> name r" by (metis imageI)
    then have "filter (\<lambda>x. name x = name r) rs = []" by (simp add: filter_empty_conv)
    with True show ?thesis by simp
  next
    case False
    with Cons.prems have "r \<in> set rs" "name a \<noteq> name r" by auto
    with Cons show ?thesis by simp
  qed
qed

lemma selectByName_Some: "selectByName d nm \<noteq> None \<Longrightarrow> \<exists>r \<in> set (rows d). name r = nm"
  by (auto simp: selectByName_def find_None_iff)

text \<open>
  Claim C6. A create-job request whose schedule expression fails classification (the
  classifier returns \<open>null\<close> or throws) is answered with a failure, and the table is
  exactly what it was: no row is inserted or updated, so the enabled jobs and every
  \<open>next_run_at\<close> a scheduler would arm are the same as before.
\<close>

theorem addJob_rejected_store_unchanged:
  assumes "arg args 2 = Some scheduleStr"
      and "\<forall>p. parseSchedule tz dateParse (tParse clk) scheduleStr \<noteq> Inr (Some p)"
  shows "\<not> isSuccess (fst (addJob tz dateParse clk d args)) \<and>
         snd (addJob tz dateParse clk d args) = d \<and>
         enabledJobs (snd (addJob tz dateParse clk d args)) = enabledJobs d"
proof -
  have "(\<exists>e. addJob tz dateParse clk d args = (ErrorExit e, d)) \<or>
        (\<exists>e. addJob tz dateParse clk d args = (Uncaught e, d))"
    using assms by (auto simp: addJob_def split: option.splits sum.splits)
  then show ?thesis by (auto simp: isSuccess_def)
qed

theorem addJob_rejected_witness:
  "arg [''add'', ''bad-job'', ''not-a-cron'', ''Some prompt''] 2 = Some ''not-a-cron'' \<and>
   parseSchedule utcZone noDateParse 1704103200000 ''not-a-cron'' = Inr None \<and>
   \<not> isSuccess (fst (addJob utcZone noDateParse \<lparr>tParse = 1704103200000, tCalc = 1704103200005, tDb = 1704103200\<rparr>
                   \<lparr>rows = [], seq = 0\<rparr> [''add'', ''bad-job'', ''not-a-cron'', ''Some prompt''])) \<and>
   snd (addJob utcZone noDateParse \<lparr>tParse = 1704103200000, tCalc = 1704103200005, tDb = 1704103200\<rparr>
          \<lparr>rows = [], seq = 0\<rparr> [''add'', ''bad-job'', ''not-a-cron'', ''Some prompt'']) = \<lparr>rows = [], seq = 0\<rparr>"
proof -
  have a: "arg [''add'', ''bad-job'', ''not-a-cron'', ''Some prompt''] 2 = Some ''not-a-cron''"
    by (simp add: arg_def)
  have p: "parseSchedule utcZone noDateParse 1704103200000 ''not-a-cron'' = Inr None"
    by code_simp
  have h: "\<forall>q. parseSchedule utcZone noDateParse (tParse \<lparr>tParse = 1704103200000, tCalc = 1704103200005, tDb = 1704103200\<rparr>) ''not-a-cron'' \<noteq> Inr (Some q)"
    using p by simp
  from addJob_rejected_store_unchanged[OF a h, of "\<lparr>rows = [], seq = 0\<rparr>"] a p
  show ?thesis by simp
qed



text \<open>
  Claim C7. When a row with the given name exists (names are unique in the table) and
  \<open>add\<close> succeeds, the row is updated in place: the names and ids of the table are what
  they were, exactly one row has the name, and that row holds the new schedule (type,
  expression, instant, interval), prompt and channel, is enabled, and has the
  \<open>next_run_at\<close> computed from the new schedule, so the fire time of the previous schedule
  is gone. Every other row is untouched.
\<close>

theorem addJob_replaces_existing:
  assumes "distinct (map name (rows d))"
      and "selectByName d nm \<noteq> None"
      and "addJob tz dateParse clk d args = (Success action nm ty nxt del, d')"
  shows "action = ''updated'' \<and>
         map name (rows d') = map name (rows d) \<and>
         map job_id (rows d') = map job_id (rows d) \<and>
         length (filter (\<lambda>r. name r = nm) (rows d')) = 1 \<and>
         (\<exists>scheduleStr pr p.
            arg args 2 = Some scheduleStr \<and> arg args 3 = Some pr \<and>
            parseSchedule tz dateParse (tParse clk) scheduleStr = Inr (Some p) \<and>
            calculateNextRun tz (tCalc clk) (ptype p) (orNullStr (pschedule p)) (prunAt p)
              (orNullNum (pintervalMs p)) = Inr nxt \<and>
            (\<forall>r \<in> set (rows d'). name r = nm \<longrightarrow>
               schedule_type r = ptype p \<and> schedule r = orNullStr (pschedule p) \<and>
               run_at r = prunAt p \<and> interval_ms r = orNullNum (pintervalMs p) \<and>
               prompt r = pr \<and>
               channel r = optChannel (scanOptions (drop 4 args) initialOptions) \<and>
               enabled r = 1 \<and> next_run_at r = nxt)) \<and>
         (\<forall>i < length (rows d). name (rows d ! i) \<noteq> nm \<longrightarrow> rows d' ! i = rows d ! i)"
proof -
  from addJob_Success[OF assms(3)] assms(2) obtain scheduleStr pr p opts dar where
    a: "arg args 2 = Some scheduleStr" "arg args 3 = Some pr"
    and p: "parseSchedule tz dateParse (tParse clk) scheduleStr = Inr (Some p)"
    and opts: "opts = scanOptions (drop 4 args) initialOptions"
    and nxt: "calculateNextRun tz (tCalc clk) (ptype p) (orNullStr (pschedule p)) (prunAt p)
              (orNullNum (pintervalMs p)) = Inr nxt"
    and act: "action = ''updated''"
    and d': "d' = updateJob d (tDb clk) p pr (optChannel opts) dar (optContextMessages opts) nxt nm"
    by auto
  have names: "map name (rows d') = map name (rows d)"
    by (simp add: d' updateJob_names)
  have ids: "map job_id (rows d') = map job_id (rows d)"
    by (simp add: d' updateJob_ids)
  from assms(2) obtain r0 where r0: "r0 \<in> set (rows d)" "name r0 = nm"
    using selectByName_Some by blast
  have "length (filter (\<lambda>r. name r = nm) (rows d')) = length (filter (\<lambda>n. n = nm) (map name (rows d')))"
    by (simp add: filter_map comp_def)
  also have "\<dots> = length (filter (\<lambda>r. name r = nm) (rows d))"
    by (simp add: names filter_map comp_def)
  also have "\<dots> = 1"
    using filter_name_unique[OF assms(1) r0(1)] r0(2) by simp
  finally have one: "length (filter (\<lambda>r. name r = nm) (rows d')) = 1" .
  have row: "\<forall>r \<in> set (rows d'). name r = nm \<longrightarrow>
               schedule_type r = ptype p \<and> schedule r = orNullStr (pschedule p) \<and>
               run_at r = prunAt p \<and> interval_ms r = orNullNum (pintervalMs p) \<and>
               prompt r = pr \<and> channel r = optChannel opts \<and>
               enabled r = 1 \<and> next_run_at r = nxt"
  proof (intro ballI impI)
    fix r assume "r \<in> set (rows d')" and "name r = nm"
    then obtain q where "r = setColumns (tDb clk) p pr (optChannel opts) dar (optContextMessages opts) nxt q"
      using updateJob_row d' by blast
    then show "schedule_type r = ptype p \<and> schedule r = orNullStr (pschedule p) \<and>
               run_at r = prunAt p \<and> interval_ms r = orNullNum (pintervalMs p) \<and>
               prompt r = pr \<and> channel r = optChannel opts \<and>
               enabled r = 1 \<and> next_run_at r = nxt"
      by (simp add: setColumns_def)
  qed
  have others: "\<forall>i < length (rows d). name (rows d ! i) \<noteq> nm \<longrightarrow> rows d' ! i = rows d ! i"
    by (simp add: d' updateJob_others)
  from act names ids one a p nxt row others show ?thesis
    unfolding opts by blast
qed

theorem addJob_replaces_existing_witness:
  "distinct (map name (rows \<lparr>rows = [newJob 1 1704000000 ''replace-me''
        \<lparr>ptype = cron, pschedule = Some ''0 8 * * *'', prunAt = None, pintervalMs = None\<rparr>
        ''Original'' ''desktop'' 0 (Some 0) (Some 1704096000000)], seq = 1\<rparr>)) \<and>
   selectByName \<lparr>rows = [newJob 1 1704000000 ''replace-me''
        \<lparr>ptype = cron, pschedule = Some ''0 8 * * *'', prunAt = None, pintervalMs = None\<rparr>
        ''Original'' ''desktop'' 0 (Some 0) (Some 1704096000000)], seq = 1\<rparr> ''replace-me'' \<noteq> None \<and>
   addJob utcZone noDateParse \<lparr>tParse = 1704103200000, tCalc = 1704103200005, tDb = 1704103200\<rparr>
     \<lparr>rows = [newJob 1 1704000000 ''replace-me''
        \<lparr>ptype = cron, pschedule = Some ''0 8 * * *'', prunAt = None, pintervalMs = None\<rparr>
        ''Original'' ''desktop'' 0 (Some 0) (Some 1704096000000)], seq = 1\<rparr>
     [''add'', ''replace-me'', ''0 10 * * *'', ''Replacement'', ''--channel'', ''telegram'']
   = (Success ''updated'' ''replace-me'' cron (Some 1704189600000) False,
      \<lparr>rows = [setColumns 1704103200
          \<lparr>ptype = cron, pschedule = Some ''0 10 * * *'', prunAt = None, pintervalMs = None\<rparr>
          ''Replacement'' ''telegram'' 0 (Some 0) (Some 1704189600000)
          (newJob 1 1704000000 ''replace-me''
            \<lparr>ptype = cron, pschedule = Some ''0 8 * * *'', prunAt = None, pintervalMs = None\<rparr>
            ''Original'' ''desktop'' 0 (Some 0) (Some 1704096000000))], seq = 1\<rparr>) \<and>
   length (filter (\<lambda>r. name r = ''replace-me'')
     (rows \<lparr>rows = [setColumns 1704103200
          \<lparr>ptype = cron, pschedule = Some ''0 10 * * *'', prunAt = None, pintervalMs = None\<rparr>
          ''Replacement'' ''telegram'' 0 (Some 0) (Some 1704189600000)
          (newJob 1 1704000000 ''replace-me''
            \<lparr>ptype = cron, pschedule = Some ''0 8 * * *'', prunAt = None, pintervalMs = None\<rparr>
            ''Original'' ''desktop'' 0 (Some 0) (Some 1704096000000))], seq = 1\<rparr>)) = 1"
proof -
  let ?old = "newJob 1 1704000000 ''replace-me''
        \<lparr>ptype = cron, pschedule = Some ''0 8 * * *'', prunAt = None, pintervalMs = None\<rparr>
        ''Original'' ''desktop'' 0 (Some 0) (Some 1704096000000)"
  let ?new = "setColumns 1704103200
          \<lparr>ptype = cron, pschedule = Some ''0 10 * * *'', prunAt = None, pintervalMs = None\<rparr>
          ''Replacement'' ''telegram'' 0 (Some 0) (Some 1704189600000) ?old"
  have dist: "distinct (map name (rows \<lparr>rows = [?old], seq = 1\<rparr>))" by simp
  have ex: "selectByName \<lparr>rows = [?old], seq = 1\<rparr> ''replace-me'' \<noteq> None"
    by (simp add: selectByName_def newJob_def)
  have run: "addJob utcZone noDateParse \<lparr>tParse = 1704103200000, tCalc = 1704103200005, tDb = 1704103200\<rparr>
     \<lparr>rows = [?old], seq = 1\<rparr>
     [''add'', ''replace-me'', ''0 10 * * *'', ''Replacement'', ''--channel'', ''telegram'']
   = (Success ''updated'' ''replace-me'' cron (Some 1704189600000) False, \<lparr>rows = [?new], seq = 1\<rparr>)"
    by code_simp
  note one = addJob_replaces_existing[OF dist ex run, THEN conjunct2, THEN conjunct2,
      THEN conjunct2, THEN conjunct1]
  show ?thesis by (intro conjI) (rule dist ex run one)+
qed

text \<open>
  Claim C9. The value of \<open>--context\<close> is clamped with \<open>Math.min(10, Math.max(0, parseInt(v)))\<close>,
  which is \<open>NaN\<close> when \<open>v\<close> does not start with a number: the job is created and its
  \<open>context_messages\<close> is not a number of the interval from 0 to 10 (\<open>NaN\<close> is stored as
  \<open>NULL\<close>).
\<close>

theorem addJob_context_not_clamped:
  "addJob utcZone noDateParse \<lparr>tParse = 1704103200000, tCalc = 1704103200005, tDb = 1704103200\<rparr>
     \<lparr>rows = [], seq = 0\<rparr> [''add'', ''j'', ''30m'', ''hi'', ''--context'', ''abc'']
   = (Success ''created'' ''j'' every (Some 1704105000005) False,
      \<lparr>rows = [newJob 1 1704103200 ''j''
                 \<lparr>ptype = every, pschedule = None, prunAt = None, pintervalMs = Some 1800000\<rparr>
                 ''hi'' ''desktop'' 0 None (Some 1704105000005)], seq = 1\<rparr>) \<and>
   context_messages (newJob 1 1704103200 ''j''
                 \<lparr>ptype = every, pschedule = None, prunAt = None, pintervalMs = Some 1800000\<rparr>
                 ''hi'' ''desktop'' 0 None (Some 1704105000005)) = None"
  by code_simp

text \<open>
  Claim C3. On a Monday at 10:00, \<open>today 1am\<close> resolves to 01:00 of the same day, nine hours
  in the past. The classifier returns it as an \<open>at\<close> schedule (only the branch that parses
  an absolute date compares the result with the clock), and \<open>add\<close> inserts the job, with no
  next run.
\<close>

theorem addJob_past_at_accepted:
  "parseSchedule utcZone noDateParse 1704103200000 ''today 1am''
   = Inr (Some \<lparr>ptype = at, pschedule = None, prunAt = Some 1704070800000, pintervalMs = None\<rparr>) \<and>
   (1704070800000::int) < 1704103200000 \<and>
   addJob utcZone noDateParse \<lparr>tParse = 1704103200000, tCalc = 1704103200005, tDb = 1704103200\<rparr>
     \<lparr>rows = [], seq = 0\<rparr> [''add'', ''late'', ''today 1am'', ''Too late'']
   = (Success ''created'' ''late'' at None True,
      \<lparr>rows = [newJob 1 1704103200 ''late''
                 \<lparr>ptype = at, pschedule = None, prunAt = Some 1704070800000, pintervalMs = None\<rparr>
                 ''Too late'' ''desktop'' 1 (Some 0) None], seq = 1\<rparr>)"
  by code_simp

section \<open>Cron expressions: classification\<close>

lemma splitWs_nonempty: "splitWs s \<noteq> []"
  by (induction s) (auto split: list.splits)

lemma splitWs_nospace_append:
  assumes "\<forall>c \<in> set x. \<not> isSpace c"
  shows "length (splitWs (x @ r)) = length (splitWs r)"
  using assms
proof (induction x)
  case Nil
  then show ?case by simp
next
  case (Cons c x)
  then have ih: "length (splitWs (x @ r)) = length (splitWs r)" by simp
  from Cons.prems have c: "\<not> isSpace c" by simp
  obtain w ws where w: "splitWs (x @ r) = w # ws"
    using splitWs_nonempty[of "x @ r"] by (cases "splitWs (x @ r)") auto
  show ?case using c w ih by simp
qed

lemma splitWs_space_append:
  assumes "\<forall>c \<in> set w. isSpace c"
  shows "length (splitWs (w @ r)) \<le> 1 + length (splitWs r)"
  using assms
proof (induction w)
  case Nil
  then show ?case by simp
next
  case (Cons c w)
  then have ih: "length (splitWs (w @ r)) \<le> 1 + length (splitWs r)" by simp
  from Cons.prems have c: "isSpace c" by simp
  show ?case
  proof (cases "w @ r \<noteq> [] \<and> isSpace (hd (w @ r))")
    case True
    then show ?thesis using c ih by simp
  next
    case False
    have "w = []"
    proof (rule ccontr)
      assume "w \<noteq> []"
      then have "w @ r \<noteq> [] \<and> hd (w @ r) = hd w" by simp
      moreover have "isSpace (hd w)" using Cons.prems \<open>w \<noteq> []\<close> by (cases w) auto
      ultimately show False using False by simp
    qed
    then show ?thesis using c False by simp
  qed
qed

lemma splitWs_three_words:
  assumes "\<forall>c \<in> set a. \<not> isSpace c" and "\<forall>c \<in> set w0. isSpace c"
      and "\<forall>c \<in> set b. \<not> isSpace c" and "\<forall>c \<in> set w1. isSpace c"
      and "\<forall>c \<in> set e. \<not> isSpace c"
  shows "length (splitWs (a @ w0 @ b @ w1 @ e)) \<le> 3"
proof -
  have 1: "length (splitWs (a @ w0 @ b @ w1 @ e)) = length (splitWs (w0 @ b @ w1 @ e))"
    using splitWs_nospace_append[OF assms(1)] .
  have 2: "length (splitWs (w0 @ b @ w1 @ e)) \<le> 1 + length (splitWs (b @ w1 @ e))"
    using splitWs_space_append[OF assms(2)] .
  have 3: "length (splitWs (b @ w1 @ e)) = length (splitWs (w1 @ e))"
    using splitWs_nospace_append[OF assms(3)] .
  have 4: "length (splitWs (w1 @ e)) \<le> 1 + length (splitWs e)"
    using splitWs_space_append[OF assms(4)] .
  have 5: "length (splitWs e) = 1"
    using splitWs_nospace_append[OF assms(5), of "[]"] by simp
  from 1 2 3 4 5 show ?thesis by linarith
qed

lemma isSpace_toLowerChar: "isSpace c \<Longrightarrow> toLowerChar c = c"
proof -
  assume "isSpace c"
  then have "c = CHR 0x09 \<or> c = CHR 0x0A \<or> c = CHR 0x0B \<or> c = CHR 0x0C \<or> c = CHR 0x0D \<or>
             c = CHR 0x20 \<or> c = CHR 0xA0"
    by (simp add: isSpace_def)
  then show ?thesis by (elim disjE) (simp_all add: toLowerChar_def)
qed

lemma toLowerCase_nospace:
  assumes "\<forall>c \<in> set (toLowerCase x). \<not> isSpace c"
  shows "\<forall>c \<in> set x. \<not> isSpace c"
proof
  fix c assume c: "c \<in> set x"
  show "\<not> isSpace c"
  proof
    assume s: "isSpace c"
    then have e: "toLowerChar c = c" by (rule isSpace_toLowerChar)
    have "toLowerChar c \<in> set (map toLowerChar x)" using c by simp
    then have "c \<in> set (toLowerCase x)" unfolding e toLowerCase_def .
    with assms s show False by blast
  qed
qed

lemma takeWhile_space_all: "\<forall>c \<in> set (takeWhile isSpace r). isSpace c"
  by (auto dest: set_takeWhileD)

lemma digits_nospace: "list_all isDigit ds \<Longrightarrow> \<forall>c \<in> set ds. \<not> isSpace c"
  by (auto simp: list_all_iff dest: isDigit_not_space)

lemma stripPrefixCI_Some:
  assumes "stripPrefixCI w t = Some r"
  shows "t = take (length w) t @ r" and "toLowerCase (take (length w) t) = w"
  using assms by (auto simp: stripPrefixCI_def split: if_splits)

lemma firstPrefixCI_Some:
  "firstPrefixCI ws t = Some (w, r) \<Longrightarrow> w \<in> set ws \<and> stripPrefixCI w t = Some r"
  by (induction ws) (auto split: option.splits)

lemma prefix_nospace:
  assumes "stripPrefixCI w t = Some r" and "\<forall>c \<in> set w. \<not> isSpace c"
  shows "\<forall>c \<in> set (take (length w) t). \<not> isSpace c"
  using toLowerCase_nospace[of "take (length w) t"] stripPrefixCI_Some(2)[OF assms(1)] assms(2)
  by simp

lemma everyUnits_nospace: "x \<in> set everyUnits \<Longrightarrow> \<forall>c \<in> set x. \<not> isSpace c"
proof -
  assume "x \<in> set everyUnits"
  then have "x = ''m'' \<or> x = ''min'' \<or> x = ''mins'' \<or> x = ''minute'' \<or> x = ''minutes'' \<or>
             x = ''h'' \<or> x = ''hr'' \<or> x = ''hrs'' \<or> x = ''hour'' \<or> x = ''hours'' \<or>
             x = ''d'' \<or> x = ''day'' \<or> x = ''days''"
    by (simp add: everyUnits_def)
  then show ?thesis by (elim disjE) (simp_all add: isSpace_def)
qed

lemma dayWords_nospace: "x \<in> set dayWords \<Longrightarrow> \<forall>c \<in> set x. \<not> isSpace c"
proof -
  assume "x \<in> set dayWords"
  then have "x = ''today'' \<or> x = ''tomorrow'' \<or> x = ''monday'' \<or> x = ''tuesday'' \<or>
             x = ''wednesday'' \<or> x = ''thursday'' \<or> x = ''friday'' \<or> x = ''saturday'' \<or>
             x = ''sunday''"
    by (simp add: dayWords_def)
  then show ?thesis by (elim disjE) (simp_all add: isSpace_def)
qed

lemma everyMatch_words:
  assumes "everyMatch t = Some (a, u)"
  shows "length (splitWs t) \<le> 3"
proof -
  define r0 where "r0 = (case stripPrefixCI ''every'' t of
                  None \<Rightarrow> t
                | Some r \<Rightarrow> if r \<noteq> [] \<and> isSpace (hd r) then dropWhile isSpace r else t)"
  define amount where "amount = takeWhile isDigit r0"
  define rest where "rest = dropWhile isDigit r0"
  define w1 where "w1 = takeWhile isSpace rest"
  define unit where "unit = dropWhile isSpace rest"
  have unf: "everyMatch t =
      (if amount \<noteq> [] \<and> toLowerCase unit \<in> set everyUnits then Some (amount, unit) else None)"
    by (simp only: everyMatch_def Let_def r0_def amount_def rest_def unit_def)
  from assms have u: "toLowerCase unit \<in> set everyUnits"
    unfolding unf by (simp split: if_splits)
  have r0: "r0 = amount @ w1 @ unit"
    by (simp add: amount_def rest_def w1_def unit_def)
  have na: "\<forall>c \<in> set amount. \<not> isSpace c"
    unfolding amount_def by (auto dest: set_takeWhileD isDigit_not_space)
  have sw: "\<forall>c \<in> set w1. isSpace c" unfolding w1_def by (rule takeWhile_space_all)
  have nu: "\<forall>c \<in> set unit. \<not> isSpace c"
    using toLowerCase_nospace[OF everyUnits_nospace[OF u]] .
  have plain: "r0 = t \<Longrightarrow> ?thesis"
  proof -
    assume "r0 = t"
    then have "t = [] @ [] @ amount @ w1 @ unit" using r0 by simp
    moreover have "length (splitWs ([] @ [] @ amount @ w1 @ unit)) \<le> 3"
      by (rule splitWs_three_words) (use na sw nu in simp_all)
    ultimately show ?thesis by simp
  qed
  show ?thesis
  proof (cases "stripPrefixCI ''every'' t")
    case None
    then have "r0 = t" by (simp add: r0_def)
    then show ?thesis by (rule plain)
  next
    case (Some r)
    show ?thesis
    proof (cases "r \<noteq> [] \<and> isSpace (hd r)")
      case False
      with Some have "r0 = t" by (auto simp: r0_def)
      then show ?thesis by (rule plain)
    next
      case True
      with Some have d: "r0 = dropWhile isSpace r" by (simp add: r0_def)
      have t: "t = take (length ''every'') t @ takeWhile isSpace r @ amount @ w1 @ unit"
        using stripPrefixCI_Some(1)[OF Some] d r0
        by (metis takeWhile_dropWhile_id)
      have np: "\<forall>c \<in> set (take (length ''every'') t). \<not> isSpace c"
        by (rule prefix_nospace[OF Some]) (simp add: isSpace_def)
      have "length (splitWs (take (length ''every'') t @ takeWhile isSpace r @ amount @ w1 @ unit)) \<le> 3"
        by (rule splitWs_three_words[OF np takeWhile_space_all na sw nu])
      with t show ?thesis by simp
    qed
  qed
qed

lemma find_Some_mem: "find P xs = Some x \<Longrightarrow> x \<in> set xs \<and> P x"
  by (induction xs) (auto split: if_splits)

lemma take_prefix_append:
  "take n ys @ drop (length (take n ys)) (ys @ zs) = ys @ zs"
proof (cases "n \<le> length ys")
  case True
  then have "length (take n ys) = n" by simp
  with True show ?thesis by simp
next
  case False
  then show ?thesis by simp
qed

lemma relativeMatch_words:
  assumes "relativeMatch t = Some m"
  shows "length (splitWs t) \<le> 3"
proof -
  obtain d r0 where fp: "firstPrefixCI dayWords t = Some (d, r0)"
    using assms by (auto simp: relativeMatch_def split: option.splits)
  note sp = firstPrefixCI_Some[OF fp]
  define r1 where "r1 = dropWhile isSpace r0"
  define hs where "hs = take 2 (takeWhile isDigit r1)"
  define r2 where "r2 = drop (length hs) r1"
  define hasMin where "hasMin \<longleftrightarrow> r2 \<noteq> [] \<and> hd r2 = CHR '':'' \<and> length (takeWhile isDigit (take 2 (tl r2))) = 2"
  define minS where "minS = (if hasMin then Some (take 2 (tl r2)) else None)"
  define r3 where "r3 = (if hasMin then drop 3 r2 else r2)"
  define r4 where "r4 = dropWhile isSpace r3"
  define ap where "ap = (if toLowerCase r4 = ''am'' \<or> toLowerCase r4 = ''pm'' then Some r4 else None)"
  define ok where "ok \<longleftrightarrow> r0 \<noteq> [] \<and> isSpace (hd r0) \<and> hs \<noteq> [] \<and> (r4 = [] \<or> ap \<noteq> None)"
  have unf: "relativeMatch t = (if ok then Some (d, hs, minS, ap) else None)"
    by (simp only: relativeMatch_def fp Let_def r1_def hs_def r2_def hasMin_def minS_def r3_def
          r4_def ap_def ok_def option.case prod.case)
  from assms have ok: "r4 = [] \<or> ap \<noteq> None" unfolding unf by (simp add: ok_def split: if_splits)
  have t0: "t = take (length d) t @ r0" using stripPrefixCI_Some(1)[OF sp[THEN conjunct2]] .
  have n0: "\<forall>c \<in> set (take (length d) t). \<not> isSpace c"
    using prefix_nospace[OF sp[THEN conjunct2] dayWords_nospace[OF sp[THEN conjunct1]]] .
  have e0: "r0 = takeWhile isSpace r0 @ r1" by (simp add: r1_def)
  have "hs @ drop (length hs) (takeWhile isDigit r1 @ dropWhile isDigit r1) =
          takeWhile isDigit r1 @ dropWhile isDigit r1"
    unfolding hs_def by (rule take_prefix_append)
  then have e1: "r1 = hs @ r2" unfolding r2_def by simp
  define b2 where "b2 = (if hasMin then take 3 r2 else [])"
  have e2: "r2 = b2 @ r3" by (simp add: b2_def r3_def)
  have e3: "r3 = takeWhile isSpace r3 @ r4" by (simp add: r4_def)
  have nh: "\<forall>c \<in> set hs. \<not> isSpace c"
    unfolding hs_def by (auto dest!: in_set_takeD set_takeWhileD isDigit_not_space)
  have nb: "\<forall>c \<in> set b2. \<not> isSpace c"
  proof (cases hasMin)
    case False
    then show ?thesis by (simp add: b2_def)
  next
    case True
    then have ne: "r2 \<noteq> []" and col: "hd r2 = CHR '':''"
      and l: "length (takeWhile isDigit (take 2 (tl r2))) = 2"
      by (simp_all add: hasMin_def)
    have dg: "list_all isDigit (take 2 (tl r2))" by (rule takeWhile_full[OF l]) simp
    from ne have "take 3 r2 = hd r2 # take 2 (tl r2)" by (cases r2) simp_all
    then have "b2 = CHR '':'' # take 2 (tl r2)" using True col by (simp add: b2_def)
    then show ?thesis using digits_nospace[OF dg] by (simp add: isSpace_def)
  qed
  have n4: "\<forall>c \<in> set r4. \<not> isSpace c"
  proof (cases "r4 = []")
    case True
    then show ?thesis by simp
  next
    case False
    with ok have "toLowerCase r4 = ''am'' \<or> toLowerCase r4 = ''pm''"
      by (auto simp: ap_def split: if_splits)
    then have "\<forall>c \<in> set (toLowerCase r4). \<not> isSpace c" by (auto simp: isSpace_def)
    then show ?thesis by (rule toLowerCase_nospace)
  qed
  have nhb: "\<forall>c \<in> set (hs @ b2). \<not> isSpace c" using nh nb by auto
  have "t = take (length d) t @ takeWhile isSpace r0 @ (hs @ b2) @ takeWhile isSpace r3 @ r4"
    using t0 e0 e1 e2 e3 by (metis append.assoc)
  moreover have "length (splitWs (take (length d) t @ takeWhile isSpace r0 @ (hs @ b2) @
                   takeWhile isSpace r3 @ r4)) \<le> 3"
    by (rule splitWs_three_words[OF n0 takeWhile_space_all nhb takeWhile_space_all n4])
  ultimately show ?thesis by simp
qed

lemma inMatch_words:
  assumes "inMatch t = Some m"
  shows "length (splitWs t) \<le> 3"
proof -
  obtain r0 where sp: "stripPrefixCI ''in'' t = Some r0"
    using assms by (auto simp: inMatch_def split: option.splits)
  define r1 where "r1 = dropWhile isSpace r0"
  define amount where "amount = takeWhile isDigit r1"
  define rest where "rest = dropWhile isDigit r1"
  define e where "e = dropWhile isSpace rest"
  define unit where "unit = find (\<lambda>u. toLowerCase e = u \<or> toLowerCase e = u @ ''s'')
                                 [''hour'', ''hr'', ''minute'', ''min'', ''day'', ''d'']"
  define ok where "ok \<longleftrightarrow> r0 \<noteq> [] \<and> isSpace (hd r0) \<and> amount \<noteq> []"
  have unf: "inMatch t = (if ok then (case unit of None \<Rightarrow> None | Some u \<Rightarrow> Some (amount, u)) else None)"
    by (simp only: inMatch_def sp Let_def r1_def amount_def rest_def e_def unit_def ok_def option.case)
  from assms obtain u where u: "unit = Some u"
    unfolding unf by (auto split: if_splits option.splits)
  then have "u \<in> set [''hour'', ''hr'', ''minute'', ''min'', ''day'', ''d''] \<and>
             (toLowerCase e = u \<or> toLowerCase e = u @ ''s'')"
    unfolding unit_def by (rule find_Some_mem)
  then have "toLowerCase e \<in> set [''hour'', ''hr'', ''minute'', ''min'', ''day'', ''d'',
                ''hours'', ''hrs'', ''minutes'', ''mins'', ''days'', ''ds'']"
    by auto
  then have "toLowerCase e = ''hour'' \<or> toLowerCase e = ''hr'' \<or> toLowerCase e = ''minute'' \<or>
             toLowerCase e = ''min'' \<or> toLowerCase e = ''day'' \<or> toLowerCase e = ''d'' \<or>
             toLowerCase e = ''hours'' \<or> toLowerCase e = ''hrs'' \<or> toLowerCase e = ''minutes'' \<or>
             toLowerCase e = ''mins'' \<or> toLowerCase e = ''days'' \<or> toLowerCase e = ''ds''"
    by simp
  then have "\<forall>c \<in> set (toLowerCase e). \<not> isSpace c"
    by (elim disjE) (simp_all add: isSpace_def)
  then have ne: "\<forall>c \<in> set e. \<not> isSpace c" by (rule toLowerCase_nospace)
  have t0: "t = take (length ''in'') t @ r0" using stripPrefixCI_Some(1)[OF sp] .
  have n0: "\<forall>c \<in> set (take (length ''in'') t). \<not> isSpace c"
    by (rule prefix_nospace[OF sp]) (simp add: isSpace_def)
  have e0: "r0 = takeWhile isSpace r0 @ r1" by (simp add: r1_def)
  have e1: "r1 = amount @ takeWhile isSpace rest @ e"
    by (simp add: amount_def rest_def e_def)
  have na: "\<forall>c \<in> set amount. \<not> isSpace c"
    unfolding amount_def by (auto dest: set_takeWhileD isDigit_not_space)
  have "t = take (length ''in'') t @ takeWhile isSpace r0 @ amount @ takeWhile isSpace rest @ e"
    using t0 e0 e1 by metis
  moreover have "length (splitWs (take (length ''in'') t @ takeWhile isSpace r0 @ amount @
                    takeWhile isSpace rest @ e)) \<le> 3"
    by (rule splitWs_three_words[OF n0 takeWhile_space_all na takeWhile_space_all ne])
  ultimately show ?thesis by simp
qed

lemma validateLoop_list_all:
  "validateLoop rs ps = list_all (\<lambda>(r, p). partOk r p) (zip rs ps)"
  by (induction rs ps rule: validateLoop.induct) simp_all

lemma partOk_iff:
  "partOk rng f \<longleftrightarrow>
     (f = ''*'' \<or> CHR ''/'' \<in> set f \<or> CHR ''-'' \<in> set f \<or> CHR '','' \<in> set f \<or>
      (\<exists>n. parseInt f = Some n \<and> fst rng \<le> n \<and> n \<le> snd rng))"
proof (cases "f = ''*'' \<or> CHR ''/'' \<in> set f \<or> CHR ''-'' \<in> set f \<or> CHR '','' \<in> set f")
  case True
  then show ?thesis unfolding partOk_def by presburger
next
  case False
  then have "partOk rng f = (case parseInt f of None \<Rightarrow> False
                             | Some num \<Rightarrow> \<not> (num < fst rng \<or> num > snd rng))"
    unfolding partOk_def by presburger
  then show ?thesis using False by (cases "parseInt f") auto
qed

lemma five_fields_forms:
  assumes "length (splitWs t) = 5"
  shows "everyMatch t = None" and "relativeMatch t = None" and "inMatch t = None"
proof -
  show "everyMatch t = None"
  proof (cases "everyMatch t")
    case (Some m)
    then have "length (splitWs t) \<le> 3" using everyMatch_words[of t "fst m" "snd m"] by simp
    with assms show ?thesis by simp
  qed simp
  show "relativeMatch t = None"
  proof (cases "relativeMatch t")
    case (Some m)
    then have "length (splitWs t) \<le> 3" by (rule relativeMatch_words)
    with assms show ?thesis by simp
  qed simp
  show "inMatch t = None"
  proof (cases "inMatch t")
    case (Some m)
    then have "length (splitWs t) \<le> 3" by (rule inMatch_words)
    with assms show ?thesis by simp
  qed simp
qed

lemma parseDateTime_five_fields:
  assumes "length (splitWs t) = 5"
  shows "parseDateTime tz dateParse now t =
           Inr (case Option.bind (dateParse t) timeClip of
                  None \<Rightarrow> None
                | Some p \<Rightarrow> if p > now then Some p else None)"
  unfolding parseDateTime_def five_fields_forms(2,3)[OF assms]
  by (simp split: option.splits)

lemma parseSchedule_five_fields:
  assumes "length (splitWs (trim s)) = 5"
  shows "parseSchedule tz dateParse now s =
           (let t = trim s;
                atTime = (case Option.bind (dateParse t) timeClip of
                            None \<Rightarrow> None
                          | Some p \<Rightarrow> if p > now then Some p else None)
            in if atTime \<noteq> None \<and> relPrefix t
               then Inr (Some \<lparr>ptype = at, pschedule = None, prunAt = atTime, pintervalMs = None\<rparr>)
               else if list_all (\<lambda>(rng, f). partOk rng f) (zip cronRanges (splitWs t))
               then Inr (Some \<lparr>ptype = cron, pschedule = Some t, prunAt = None, pintervalMs = None\<rparr>)
               else if atTime \<noteq> None
               then Inr (Some \<lparr>ptype = at, pschedule = None, prunAt = atTime, pintervalMs = None\<rparr>)
               else Inr None)"
proof -
  define t where "t = trim s"
  have len: "length (splitWs t) = 5" using assms by (simp add: t_def)
  have vc: "validateCron t = list_all (\<lambda>(rng, f). partOk rng f) (zip cronRanges (splitWs t))"
    using len by (simp add: validateCron_def validateLoop_list_all)
  show ?thesis
    unfolding parseSchedule_def Let_def t_def[symmetric] five_fields_forms(1)[OF len]
      parseDateTime_five_fields[OF len]
    using len vc by simp
qed

lemma parseSchedule_cron_five:
  assumes "parseSchedule tz dateParse now s = Inr (Some p)" and "ptype p = cron"
  shows "length (splitWs (trim s)) = 5"
proof (rule ccontr)
  assume "length (splitWs (trim s)) \<noteq> 5"
  then have "\<not> (\<exists>p. parseSchedule tz dateParse now s = Inr (Some p) \<and> ptype p = cron)"
    unfolding parseSchedule_def Let_def
    by (auto split: option.splits sum.splits if_splits)
  with assms show False by blast
qed

lemma splitWs_nospace: "\<forall>f \<in> set (splitWs s). \<forall>c \<in> set f. \<not> isSpace c"
proof (induction s)
  case Nil
  show ?case by simp
next
  case (Cons c s)
  obtain w ws where w: "splitWs s = w # ws"
    using splitWs_nonempty[of s] by (cases "splitWs s") auto
  show ?case
  proof (cases "isSpace c")
    case True
    with Cons show ?thesis by simp
  next
    case False
    with Cons w show ?thesis by simp
  qed
qed

lemma partOk_written:
  assumes "\<forall>c \<in> set f. \<not> isSpace c" and "fieldWritten f"
  shows "partOk rng f \<longleftrightarrow>
           (f = ''*'' \<or> CHR ''/'' \<in> set f \<or> CHR ''-'' \<in> set f \<or> CHR '','' \<in> set f \<or>
            (\<exists>n. numeral_of f = Some n \<and> fst rng \<le> n \<and> n \<le> snd rng))"
proof (cases "f = ''*'' \<or> CHR ''/'' \<in> set f \<or> CHR ''-'' \<in> set f \<or> CHR '','' \<in> set f")
  case True
  then show ?thesis unfolding partOk_iff by blast
next
  case False
  have "parseInt f = numeral_of f"
  proof (cases "list_all isDigit f")
    case True
    show ?thesis
    proof (cases "f = []")
      case True
      then show ?thesis by (simp add: parseInt_def numeral_of_def)
    next
      case ne: False
      show ?thesis using parseInt_all_digits[OF ne True] ne True by (simp add: numeral_of_def)
    qed
  next
    case nd: False
    then obtain c cs where f: "f = c # cs" by (cases f) auto
    from assms(2) False nd have h: "\<not> isDigit (hd f)" "hd f \<noteq> CHR ''+''"
      by (simp_all add: fieldWritten_def)
    from False have m: "hd f \<noteq> CHR ''-''" using f by auto
    from assms(1) have sp: "\<not> isSpace c" using f by simp
    have "parseInt (c # cs) = None"
      using h m sp unfolding f by (simp add: parseInt_def)
    then show ?thesis using nd f by (simp add: numeral_of_def)
  qed
  then show ?thesis using False unfolding partOk_iff by simp
qed

lemma fields_written:
  assumes "list_all fieldWritten (splitWs t)"
  shows "list_all (\<lambda>(rng, f). partOk rng f) (zip rs (splitWs t)) \<longleftrightarrow>
         list_all (\<lambda>(rng, f). f = ''*'' \<or> CHR ''/'' \<in> set f \<or> CHR ''-'' \<in> set f \<or>
                               CHR '','' \<in> set f \<or>
                               (\<exists>n. numeral_of f = Some n \<and> fst rng \<le> n \<and> n \<le> snd rng))
           (zip rs (splitWs t))"
proof (rule list_all_cong[OF refl])
  fix x assume x: "x \<in> set (zip rs (splitWs t))"
  obtain rng f where xe: "x = (rng, f)" by (cases x)
  with x have fm: "f \<in> set (splitWs t)" by (auto dest: set_zip_rightD)
  have ns: "\<forall>c \<in> set f. \<not> isSpace c" using splitWs_nospace fm by blast
  have fw: "fieldWritten f" using assms fm by (simp add: list_all_iff)
  show "(case x of (rng, f) \<Rightarrow> partOk rng f) =
        (case x of (rng, f) \<Rightarrow> f = ''*'' \<or> CHR ''/'' \<in> set f \<or> CHR ''-'' \<in> set f \<or>
                               CHR '','' \<in> set f \<or>
                               (\<exists>n. numeral_of f = Some n \<and> fst rng \<le> n \<and> n \<le> snd rng))"
    unfolding xe using partOk_written[OF ns fw, of rng] by simp
qed

text \<open>
  Claim C4, as amended. It speaks of the expressions in which no field is a number
  followed by other characters (a field that begins with a digit or a sign is written in
  digits only, unless it holds \<open>/\<close>, \<open>-\<close> or \<open>,\<close>). The classifier accepts such an
  expression as a cron schedule exactly when it has 5 fields separated by white space and
  each field is \<open>*\<close>, or holds \<open>/\<close>, \<open>-\<close> or \<open>,\<close> (such a field is accepted as it is, its
  form and its numbers unchecked), or is a number within the bounds of its position
  (minute 0-59, hour 0-23, day of month 1-31, month 1-12, weekday 0-7); unless the
  expression starts with today, tomorrow, a weekday name or \<open>in\<close> and a digit, and the
  runtime's \<open>Date.parse\<close> reads it as a future date, in which case it is an \<open>at\<close> schedule.
  An expression of 5 fields that fails the test of its fields is rejected whenever
  \<open>Date.parse\<close> does not read it as a future date.
\<close>

theorem classify_cron_iff:
  assumes "list_all fieldWritten (splitWs (trim s))"
  shows "((\<exists>p. parseSchedule tz dateParse now s = Inr (Some p) \<and> ptype p = cron) \<longleftrightarrow>
          (length (splitWs (trim s)) = 5 \<and>
           list_all (\<lambda>(rng, f). f = ''*'' \<or> CHR ''/'' \<in> set f \<or> CHR ''-'' \<in> set f \<or>
                                 CHR '','' \<in> set f \<or>
                                 (\<exists>n. numeral_of f = Some n \<and> fst rng \<le> n \<and> n \<le> snd rng))
                    (zip cronRanges (splitWs (trim s))) \<and>
           \<not> (relPrefix (trim s) \<and>
              (\<exists>t. Option.bind (dateParse (trim s)) timeClip = Some t \<and> now < t)))) \<and>
         (length (splitWs (trim s)) = 5 \<and>
          \<not> list_all (\<lambda>(rng, f). f = ''*'' \<or> CHR ''/'' \<in> set f \<or> CHR ''-'' \<in> set f \<or>
                                   CHR '','' \<in> set f \<or>
                                   (\<exists>n. numeral_of f = Some n \<and> fst rng \<le> n \<and> n \<le> snd rng))
                      (zip cronRanges (splitWs (trim s))) \<and>
          \<not> (\<exists>t. Option.bind (dateParse (trim s)) timeClip = Some t \<and> now < t)
          \<longrightarrow> parseSchedule tz dateParse now s = Inr None)"
proof -
  define t where "t = trim s"
  define atTime where "atTime = (case Option.bind (dateParse t) timeClip of
                  None \<Rightarrow> None
                | Some p \<Rightarrow> if p > now then Some p else None)"
  define fieldsOk where "fieldsOk \<longleftrightarrow>
      list_all (\<lambda>(rng, f). f = ''*'' \<or> CHR ''/'' \<in> set f \<or> CHR ''-'' \<in> set f \<or>
                          CHR '','' \<in> set f \<or>
                          (\<exists>n. numeral_of f = Some n \<and> fst rng \<le> n \<and> n \<le> snd rng))
             (zip cronRanges (splitWs t))"
  have at_iff: "atTime \<noteq> None \<longleftrightarrow> (\<exists>x. Option.bind (dateParse t) timeClip = Some x \<and> now < x)"
    by (auto simp: atTime_def split: option.splits)
  have fo: "list_all (\<lambda>(rng, f). partOk rng f) (zip cronRanges (splitWs t)) \<longleftrightarrow> fieldsOk"
    unfolding fieldsOk_def using fields_written[OF assms[folded t_def]] .
  show ?thesis
  proof (cases "length (splitWs t) = 5")
    case False
    have "\<not> (\<exists>p. parseSchedule tz dateParse now s = Inr (Some p) \<and> ptype p = cron)"
      using False parseSchedule_cron_five[of tz dateParse now s] unfolding t_def by blast
    with False show ?thesis by (simp add: t_def)
  next
    case True
    have ps: "parseSchedule tz dateParse now s =
               (if atTime \<noteq> None \<and> relPrefix t
                then Inr (Some \<lparr>ptype = at, pschedule = None, prunAt = atTime, pintervalMs = None\<rparr>)
                else if fieldsOk
                then Inr (Some \<lparr>ptype = cron, pschedule = Some t, prunAt = None, pintervalMs = None\<rparr>)
                else if atTime \<noteq> None
                then Inr (Some \<lparr>ptype = at, pschedule = None, prunAt = atTime, pintervalMs = None\<rparr>)
                else Inr None)"
      using parseSchedule_five_fields[OF True[unfolded t_def], of tz dateParse now]
      unfolding Let_def t_def[symmetric] atTime_def[symmetric] fo .
    have a: "(\<exists>p. parseSchedule tz dateParse now s = Inr (Some p) \<and> ptype p = cron) \<longleftrightarrow>
          (fieldsOk \<and> \<not> (atTime \<noteq> None \<and> relPrefix t))"
      unfolding ps by auto
    have b: "\<not> fieldsOk \<and> atTime = None \<longrightarrow> parseSchedule tz dateParse now s = Inr None"
      unfolding ps by simp
    have none_iff: "atTime = None \<longleftrightarrow>
                      \<not> (\<exists>x. Option.bind (dateParse t) timeClip = Some x \<and> now < x)"
      using at_iff by blast
    from a have a': "(\<exists>p. parseSchedule tz dateParse now s = Inr (Some p) \<and> ptype p = cron) \<longleftrightarrow>
          (length (splitWs t) = 5 \<and> fieldsOk \<and>
           \<not> (relPrefix t \<and> (\<exists>x. Option.bind (dateParse t) timeClip = Some x \<and> now < x)))"
      using True unfolding at_iff by blast
    from b have b': "length (splitWs t) = 5 \<and> \<not> fieldsOk \<and>
           \<not> (\<exists>x. Option.bind (dateParse t) timeClip = Some x \<and> now < x)
           \<longrightarrow> parseSchedule tz dateParse now s = Inr None"
      unfolding none_iff by blast
    from a' b' show ?thesis unfolding fieldsOk_def t_def by (rule conjI)
  qed
qed

theorem classify_cron_witness:
  "list_all fieldWritten (splitWs (trim ''*/15 9-17 * * 1'')) \<and>
   length (splitWs (trim ''*/15 9-17 * * 1'')) = 5 \<and>
   \<not> relPrefix (trim ''*/15 9-17 * * 1'') \<and>
   specCronValid ''*/15 9-17 * * 1'' \<and>
   (\<forall>tz dateParse now. \<exists>p. parseSchedule tz dateParse now ''*/15 9-17 * * 1'' = Inr (Some p) \<and>
                              ptype p = cron) \<and>
   list_all fieldWritten (splitWs (trim ''60 * * * *'')) \<and>
   length (splitWs (trim ''60 * * * *'')) = 5 \<and>
   numeral_of ''60'' = Some 60 \<and>
   (\<forall>tz now. parseSchedule tz noDateParse now ''60 * * * *'' = Inr None) \<and>
   (\<forall>tz. parseSchedule tz (dateParseAs (- 315619200000)) 1704103200000 ''60 * * * *'' = Inr None)"
proof -
  have sw: "splitWs (trim ''*/15 9-17 * * 1'') = [''*/15'', ''9-17'', ''*'', ''*'', ''1'']"
    by code_simp
  have fw: "list_all fieldWritten (splitWs (trim ''*/15 9-17 * * 1''))" by code_simp
  have len: "length (splitWs (trim ''*/15 9-17 * * 1'')) = 5" by (simp add: sw)
  have rp: "\<not> relPrefix (trim ''*/15 9-17 * * 1'')" by code_simp
  have sv: "specCronValid ''*/15 9-17 * * 1''" by code_simp
  have n1: "numeral_of ''1'' = Some 1" by code_simp
  have ok: "list_all (\<lambda>(rng, f). f = ''*'' \<or> CHR ''/'' \<in> set f \<or> CHR ''-'' \<in> set f \<or>
                                 CHR '','' \<in> set f \<or>
                                 (\<exists>n. numeral_of f = Some n \<and> fst rng \<le> n \<and> n \<le> snd rng))
                    (zip cronRanges (splitWs (trim ''*/15 9-17 * * 1'')))"
    by (simp add: sw cronRanges_def n1)
  have acc: "\<forall>tz dateParse now. \<exists>p. parseSchedule tz dateParse now ''*/15 9-17 * * 1'' = Inr (Some p) \<and>
                              ptype p = cron"
    using classify_cron_iff[OF fw, THEN conjunct1] len ok rp by blast
  have sw6: "splitWs (trim ''60 * * * *'') = [''60'', ''*'', ''*'', ''*'', ''*'']" by code_simp
  have fw6: "list_all fieldWritten (splitWs (trim ''60 * * * *''))" by code_simp
  have len6: "length (splitWs (trim ''60 * * * *'')) = 5" by (simp add: sw6)
  have n60: "numeral_of ''60'' = Some 60" by code_simp
  have bad: "\<not> list_all (\<lambda>(rng, f). f = ''*'' \<or> CHR ''/'' \<in> set f \<or> CHR ''-'' \<in> set f \<or>
                                 CHR '','' \<in> set f \<or>
                                 (\<exists>n. numeral_of f = Some n \<and> fst rng \<le> n \<and> n \<le> snd rng))
                    (zip cronRanges (splitWs (trim ''60 * * * *'')))"
    by (simp add: sw6 cronRanges_def n60)
  have nan: "\<And>now. \<not> (\<exists>t. Option.bind (noDateParse (trim ''60 * * * *'')) timeClip = Some t \<and> now < t)"
    by (simp add: noDateParse_def)
  have past: "\<not> (\<exists>t. Option.bind (dateParseAs (- 315619200000) (trim ''60 * * * *'')) timeClip = Some t \<and>
                      1704103200000 < t)"
    by (auto simp: dateParseAs_def timeClip_def)
  have rej1: "\<forall>tz now. parseSchedule tz noDateParse now ''60 * * * *'' = Inr None"
    using classify_cron_iff[OF fw6, THEN conjunct2] len6 bad nan by blast
  have rej2: "\<forall>tz. parseSchedule tz (dateParseAs (- 315619200000)) 1704103200000 ''60 * * * *'' = Inr None"
    using classify_cron_iff[OF fw6, THEN conjunct2] len6 bad past by blast
  from fw len rp sv acc fw6 len6 n60 rej1 rej2 show ?thesis by (intro conjI)
qed

text \<open>
  Claim C4 as it is stated fails: numbers out of range are accepted inside a range
  (\<open>99-100\<close> as a minute), a list (\<open>8,9\<close> as a weekday) or a step (\<open>61/5\<close> as a minute),
  whatever \<open>Date.parse\<close> makes of the text, and a field that only starts with a number
  (\<open>5x\<close>) is accepted too. And an expression with a plain number out of range is not
  rejected when \<open>Date.parse\<close> reads the text as a future date: with a \<open>Date.parse\<close> that
  reads \<open>* * 32 * *\<close> as 1 January 2032, the classifier returns an \<open>at\<close> schedule for
  that day.
\<close>

theorem classify_cron_counterexample:
  "validateCron ''99-100 * * * *'' \<and>
   parseSchedule utcZone noDateParse 1704103200000 ''99-100 * * * *'' =
     Inr (Some \<lparr>ptype = cron, pschedule = Some ''99-100 * * * *'', prunAt = None,
                pintervalMs = None\<rparr>) \<and>
   parseSchedule utcZone (dateParseAs 1956528000000) 1704103200000 ''99-100 * * * *'' =
     Inr (Some \<lparr>ptype = cron, pschedule = Some ''99-100 * * * *'', prunAt = None,
                pintervalMs = None\<rparr>) \<and>
   \<not> specCronValid ''99-100 * * * *'' \<and>
   validateCron ''0 0 1 1 8,9'' \<and>
   parseSchedule utcZone noDateParse 1704103200000 ''0 0 1 1 8,9'' =
     Inr (Some \<lparr>ptype = cron, pschedule = Some ''0 0 1 1 8,9'', prunAt = None,
                pintervalMs = None\<rparr>) \<and>
   parseSchedule utcZone (dateParseAs 1956528000000) 1704103200000 ''0 0 1 1 8,9'' =
     Inr (Some \<lparr>ptype = cron, pschedule = Some ''0 0 1 1 8,9'', prunAt = None,
                pintervalMs = None\<rparr>) \<and>
   \<not> specCronValid ''0 0 1 1 8,9'' \<and>
   validateCron ''61/5 * * * *'' \<and>
   parseSchedule utcZone noDateParse 1704103200000 ''61/5 * * * *'' =
     Inr (Some \<lparr>ptype = cron, pschedule = Some ''61/5 * * * *'', prunAt = None,
                pintervalMs = None\<rparr>) \<and>
   parseSchedule utcZone (dateParseAs 1956528000000) 1704103200000 ''61/5 * * * *'' =
     Inr (Some \<lparr>ptype = cron, pschedule = Some ''61/5 * * * *'', prunAt = None,
                pintervalMs = None\<rparr>) \<and>
   \<not> specCronValid ''61/5 * * * *'' \<and>
   validateCron ''5x * * * *'' \<and>
   parseSchedule utcZone noDateParse 1704103200000 ''5x * * * *'' =
     Inr (Some \<lparr>ptype = cron, pschedule = Some ''5x * * * *'', prunAt = None,
                pintervalMs = None\<rparr>) \<and>
   \<not> specCronValid ''5x * * * *'' \<and>
   \<not> validateCron ''* * 32 * *'' \<and> \<not> specCronValid ''* * 32 * *'' \<and>
   parseSchedule utcZone (dateParseAs 1956528000000) 1704103200000 ''* * 32 * *'' =
     Inr (Some \<lparr>ptype = at, pschedule = None, prunAt = Some 1956528000000, pintervalMs = None\<rparr>)"
  by code_simp

end
